theory Spec2Isabelle
  imports Main
begin

section \<open>JSON values\<close>

text \<open>
  A frame is a text; \<^verbatim>\<open>JSON.parse\<close> either throws a SyntaxError or returns
  a value of this type. The numbers of the protocol are client ids, so numbers are modelled
  by the integers: a fractional number is truthy and is the key of no client, which is how
  an integer that is no id behaves. A frame that does not parse is \<open>None\<close>.
\<close>

datatype json =
    JNull
  | JBool bool
  | JNum int
  | JStr string
  | JArr "json list"
  | JObj "(string \<times> json) list"

datatype exn = SyntaxError | TypeError | Error string

text \<open>
  \<^verbatim>\<open>data.k\<close>: a TypeError on \<^verbatim>\<open>null\<close>, the value of the key on an
  object, \<^verbatim>\<open>undefined\<close> (\<open>None\<close>) when the key is absent and on every other
  value (none of the keys read here is a built-in property of a string, number, boolean
  or array).
\<close>

fun get_prop :: "json \<Rightarrow> string \<Rightarrow> exn + json option" where
  "get_prop JNull k = Inl TypeError"
| "get_prop (JObj kvs) k = Inr (map_of kvs k)"
| "get_prop d k = Inr None"

text \<open>
  \<^verbatim>\<open>data.k\<close> where an earlier read has shown that \<open>data\<close> is not
  \<^verbatim>\<open>null\<close>.
\<close>

fun field :: "json \<Rightarrow> string \<Rightarrow> json option" where
  "field (JObj kvs) k = map_of kvs k"
| "field d k = None"

text \<open>
  The own properties of an object after \<^verbatim>\<open>obj[k] = v\<close>, as
  \<^verbatim>\<open>JSON.stringify\<close> writes them: an existing key keeps its place, a new key
  goes last, and a key whose value is \<^verbatim>\<open>undefined\<close> is not written.
\<close>

fun put :: "(string \<times> json) list \<Rightarrow> string \<Rightarrow> json \<Rightarrow> (string \<times> json) list" where
  "put [] k v = [(k, v)]"
| "put ((k', v') # kvs) k v = (if k' = k then (k, v) # kvs else (k', v') # put kvs k v)"

fun put_opt :: "(string \<times> json) list \<Rightarrow> string \<Rightarrow> json option \<Rightarrow> (string \<times> json) list" where
  "put_opt kvs k None = filter (\<lambda>kv. fst kv \<noteq> k) kvs"
| "put_opt kvs k (Some v) = put kvs k v"

text \<open>
  \<^verbatim>\<open>data.k = v\<close>: a TypeError on \<^verbatim>\<open>null\<close>; on a string, number or
  boolean the assignment is dropped (the relay is not in strict mode); on an array it sets
  a property that \<^verbatim>\<open>JSON.stringify\<close> does not write.
\<close>

fun assign :: "json \<Rightarrow> string \<Rightarrow> json option \<Rightarrow> exn + json" where
  "assign JNull k v = Inl TypeError"
| "assign (JObj kvs) k v = Inr (JObj (put_opt kvs k v))"
| "assign d k v = Inr d"

text \<open>Truthiness of a value, and of a value that may be \<^verbatim>\<open>undefined\<close>.\<close>

fun truthy :: "json \<Rightarrow> bool" where
  "truthy JNull = False"
| "truthy (JBool b) = b"
| "truthy (JNum n) = (n \<noteq> 0)"
| "truthy (JStr s) = (s \<noteq> [])"
| "truthy (JArr xs) = True"
| "truthy (JObj kvs) = True"

fun truthy_opt :: "json option \<Rightarrow> bool" where
  "truthy_opt None = False"
| "truthy_opt (Some v) = truthy v"

text \<open>
  An object literal given to \<^verbatim>\<open>JSON.stringify\<close>: a field whose value is
  \<^verbatim>\<open>undefined\<close> is left out.
\<close>

fun opt_field :: "string \<Rightarrow> json option \<Rightarrow> (string \<times> json) list" where
  "opt_field k None = []"
| "opt_field k (Some v) = [(k, v)]"

text \<open>
  The text of a value in a template literal (the operation \<^verbatim>\<open>ToString\<close>). A
  number is written in decimal, which is the text of an integer below \<open>10^21\<close>. An
  array is written by \<^verbatim>\<open>join\<close>: the texts of its entries with commas between
  them, the empty text for \<^verbatim>\<open>null\<close>. An object that \<^verbatim>\<open>JSON.parse\<close>
  has made holds no function: when it has no member of its own called
  \<^verbatim>\<open>toString\<close> it inherits the one that answers \<^verbatim>\<open>[object Object]\<close>;
  when it has one, that member cannot be called, \<^verbatim>\<open>valueOf\<close> yields no primitive
  value either, and the conversion throws a TypeError.
\<close>

fun show_nat :: "nat \<Rightarrow> string" where
  "show_nat n = (if n < 10 then [''0123456789'' ! n]
                 else show_nat (n div 10) @ [''0123456789'' ! (n mod 10)])"

declare show_nat.simps [simp del]

definition show_int :: "int \<Rightarrow> string" where
  "show_int i = (if i < 0 then CHR ''-'' # show_nat (nat (- i)) else show_nat (nat i))"

fun to_string :: "json \<Rightarrow> exn + string" and join :: "json list \<Rightarrow> exn + string" where
  "to_string JNull = Inr ''null''"
| "to_string (JBool b) = Inr (if b then ''true'' else ''false'')"
| "to_string (JNum n) = Inr (show_int n)"
| "to_string (JStr s) = Inr s"
| "to_string (JArr xs) = join xs"
| "to_string (JObj kvs) = (if map_of kvs ''toString'' = None then Inr ''[object Object]'' else Inl TypeError)"
| "join [] = Inr []"
| "join (x # xs) =
     (case (if x = JNull then Inr [] else to_string x) of
        Inl e \<Rightarrow> Inl e
      | Inr a \<Rightarrow>
          if xs = [] then Inr a
          else (case join xs of Inl e \<Rightarrow> Inl e | Inr b \<Rightarrow> Inr (a @ '','' @ b)))"

fun to_string_opt :: "json option \<Rightarrow> exn + string" where
  "to_string_opt None = Inr ''undefined''"
| "to_string_opt (Some v) = to_string v"

section \<open>The JavaScript Map\<close>

text \<open>
  A \<^verbatim>\<open>Map\<close> keeps its entries in insertion order, one per key;
  \<^verbatim>\<open>set\<close> on a key that is present replaces the value in place.
\<close>

fun map_get :: "('k \<times> 'v) list \<Rightarrow> 'k \<Rightarrow> 'v option" where
  "map_get [] k = None"
| "map_get ((k', v) # m) k = (if k' = k then Some v else map_get m k)"

fun map_set :: "('k \<times> 'v) list \<Rightarrow> 'k \<Rightarrow> 'v \<Rightarrow> ('k \<times> 'v) list" where
  "map_set [] k v = [(k, v)]"
| "map_set ((k', v') # m) k v = (if k' = k then (k, v) # m else (k', v') # map_set m k v)"

fun map_delete :: "('k \<times> 'v) list \<Rightarrow> 'k \<Rightarrow> ('k \<times> 'v) list" where
  "map_delete [] k = []"
| "map_delete ((k', v) # m) k = (if k' = k then map_delete m k else (k', v) # map_delete m k)"

section \<open>The relay\<close>

text \<open>
  The signaling server: the first program of \<^verbatim>\<open>src/unnamed/part_000\<close> (the
  file goes on with an earlier version of the server, which keeps no usernames). Its state
  is \<^verbatim>\<open>nextClientId\<close> and the Map \<^verbatim>\<open>clients\<close>; around it stand the sockets
  of the \<^verbatim>\<open>ws\<close> library: the \<^verbatim>\<open>readyState\<close> of each, the
  \<^verbatim>\<open>clientId\<close> its connection callback holds, the message listener attached to it,
  and the calls of \<^verbatim>\<open>send\<close> in the order they were made. A socket is named by
  the number of connections accepted before it. \<^verbatim>\<open>nextClientId\<close> is a JavaScript
  number; \<^verbatim>\<open>++\<close> is exact below \<open>2^53\<close>, more connections than a process
  accepts in its lifetime, and the model counts in the natural numbers. What the server
  writes to the console is left out, but not the exception that building a line can throw.
\<close>

datatype ready_state = CONNECTING | OPEN | CLOSING | CLOSED

type_synonym sock = nat

record client =
  ws :: sock
  username :: "json option"
  clientId :: nat

text \<open>
  The message listeners of a socket: none, the \<^verbatim>\<open>once\<close> listener of the
  connection callback, or the \<^verbatim>\<open>on\<close> listener registered after registration,
  which holds the username of the register frame.
\<close>

datatype listener = NoListener | Once | On "json option"

record relay =
  nextClientId :: nat
  clients :: "(nat \<times> client) list"
  readyState :: "sock \<Rightarrow> ready_state"
  conn :: "sock \<Rightarrow> nat option"
  listeners :: "sock \<Rightarrow> listener"
  nsocks :: nat
  sent :: "(sock \<times> json) list"
  uncaught :: "exn option"

definition init :: relay where
  "init = \<lparr> nextClientId = 1, clients = [], readyState = (\<lambda>s. CLOSED), conn = (\<lambda>s. None),
            listeners = (\<lambda>s. NoListener), nsocks = 0, sent = [], uncaught = None \<rparr>"

text \<open>\<^verbatim>\<open>ws.send(JSON.stringify(v))\<close> and \<^verbatim>\<open>ws.close()\<close>.\<close>

definition ws_send :: "relay \<Rightarrow> sock \<Rightarrow> json \<Rightarrow> relay" where
  "ws_send w s v = w\<lparr> sent := sent w @ [(s, v)] \<rparr>"

definition ws_close :: "relay \<Rightarrow> sock \<Rightarrow> relay" where
  "ws_close w s =
     w\<lparr> readyState := (readyState w)(s := (if readyState w s = CLOSED then CLOSED else CLOSING)) \<rparr>"

text \<open>
  \<^verbatim>\<open>clients.get(data.targetPeerId)\<close>: the keys of \<^verbatim>\<open>clients\<close> are
  numbers, and a Map compares a key with SameValueZero, so only a number finds an entry.
\<close>

fun clients_get :: "(nat \<times> client) list \<Rightarrow> json \<Rightarrow> client option" where
  "clients_get m (JNum n) = (if 0 \<le> n then map_get m (nat n) else None)"
| "clients_get m v = None"

text \<open>The envelopes the relay writes itself.\<close>

definition peer_entry :: "nat \<times> client \<Rightarrow> json" where
  "peer_entry e = JObj ((''clientId'', JNum (int (fst e))) # opt_field ''username'' (username (snd e)))"

definition existing_peers :: "json list \<Rightarrow> json" where
  "existing_peers ps = JObj [(''type'', JStr ''existing-peers''), (''peers'', JArr ps)]"

definition new_peer :: "nat \<Rightarrow> json option \<Rightarrow> json" where
  "new_peer cid un =
     JObj ([(''type'', JStr ''new-peer''), (''peerId'', JNum (int cid))] @ opt_field ''username'' un)"

definition peer_disconnected :: "nat \<Rightarrow> json option \<Rightarrow> json" where
  "peer_disconnected cid un =
     JObj ([(''type'', JStr ''peer-disconnected''), (''peerId'', JNum (int cid))] @ opt_field ''username'' un)"

text \<open>
  \<^verbatim>\<open>wss.on('connection', (ws) => ...)\<close>: takes the next id, and attaches the
  \<^verbatim>\<open>once('message')\<close> and the \<^verbatim>\<open>on('close')\<close> listeners. A socket the
  server accepts is open.
\<close>

definition on_connection :: "relay \<Rightarrow> relay" where
  "on_connection w =
     (let s = nsocks w; cid = nextClientId w in
      w\<lparr> nextClientId := cid + 1,
         readyState := (readyState w)(s := OPEN),
         conn := (conn w)(s \<mapsto> cid),
         listeners := (listeners w)(s := Once),
         nsocks := s + 1 \<rparr>)"

text \<open>
  \<^verbatim>\<open>clients.forEach\<close> of the registration: a \<^verbatim>\<open>new-peer\<close> envelope to
  every other entry whose socket is open.
\<close>

fun notify_new_peer :: "relay \<Rightarrow> nat \<Rightarrow> json option \<Rightarrow> (nat \<times> client) list \<Rightarrow> relay" where
  "notify_new_peer w cid un [] = w"
| "notify_new_peer w cid un ((i, c) # m) =
     notify_new_peer
       (if i \<noteq> cid \<and> readyState w (ws c) = OPEN then ws_send w (ws c) (new_peer cid un) else w)
       cid un m"

text \<open>
  The listener of the later messages, \<^verbatim>\<open>ws.on('message', ...)\<close> with the
  \<^verbatim>\<open>clientId\<close> and \<^verbatim>\<open>username\<close> of its closure. It has no
  \<^verbatim>\<open>try\<close>: what \<^verbatim>\<open>JSON.parse\<close> or an assignment throws leaves the
  listener (\<open>Inl\<close>).
\<close>

definition on_message :: "relay \<Rightarrow> nat \<Rightarrow> json option \<Rightarrow> json option \<Rightarrow> exn + relay" where
  "on_message w cid un message =
     (case message of
        None \<Rightarrow> Inl SyntaxError
      | Some data \<Rightarrow>
          (case assign data ''senderId'' (Some (JNum (int cid))) of
             Inl e \<Rightarrow> Inl e
           | Inr d1 \<Rightarrow>
               (case assign d1 ''username'' un of
                  Inl e \<Rightarrow> Inl e
                | Inr d2 \<Rightarrow>
                    (case get_prop d2 ''targetPeerId'' of
                       Inl e \<Rightarrow> Inl e
                     | Inr None \<Rightarrow> Inr w
                     | Inr (Some targetPeerId) \<Rightarrow>
                         if truthy targetPeerId then
                           (case clients_get (clients w) targetPeerId of
                              None \<Rightarrow> Inr w
                            | Some targetPeer \<Rightarrow>
                                if readyState w (ws targetPeer) = OPEN
                                then Inr (ws_send w (ws targetPeer) d2)
                                else Inr w)
                         else Inr w))))"

text \<open>
  The body of the \<^verbatim>\<open>try\<close> of the first message, on socket \<open>s\<close> whose
  connection callback holds \<open>cid\<close>: what it returns or throws, and the state it
  leaves. The line for \<^verbatim>\<open>console.log\<close> is built after
  \<^verbatim>\<open>clients.set\<close>, and the text of the username in it can throw: then the
  entry is stored, nothing is sent and no listener is attached.
\<close>

definition register_body :: "relay \<Rightarrow> sock \<Rightarrow> nat \<Rightarrow> json option \<Rightarrow> (exn + unit) \<times> relay" where
  "register_body w s cid message =
     (case message of
        None \<Rightarrow> (Inl SyntaxError, w)
      | Some data \<Rightarrow>
          (case get_prop data ''type'' of
             Inl e \<Rightarrow> (Inl e, w)
           | Inr ty \<Rightarrow>
               if ty \<noteq> Some (JStr ''register'') then (Inr (), ws_close w s)
               else
                 (case get_prop data ''username'' of
                    Inl e \<Rightarrow> (Inl e, w)
                  | Inr un \<Rightarrow>
                      let w1 = w\<lparr> clients := map_set (clients w) cid \<lparr> ws = s, username = un, clientId = cid \<rparr> \<rparr>
                      in case to_string_opt un of
                           Inl e \<Rightarrow> (Inl e, w1)
                         | Inr line \<Rightarrow>
                             let existingPeers = map peer_entry (filter (\<lambda>e. fst e \<noteq> cid) (clients w1));
                                 w2 = (if length existingPeers > 0
                                       then ws_send w1 s (existing_peers existingPeers) else w1);
                                 w3 = notify_new_peer w2 cid un (clients w2)
                             in (Inr (), w3\<lparr> listeners := (listeners w3)(s := On un) \<rparr>))))"

text \<open>
  \<^verbatim>\<open>ws.once('message', ...)\<close>: the \<^verbatim>\<open>catch\<close> logs the error and closes
  the socket.
\<close>

definition once_message :: "relay \<Rightarrow> sock \<Rightarrow> nat \<Rightarrow> json option \<Rightarrow> relay" where
  "once_message w s cid message =
     (case register_body w s cid message of
        (Inl e, w') \<Rightarrow> ws_close w' s
      | (Inr u, w') \<Rightarrow> w')"

text \<open>
  \<^verbatim>\<open>ws.on('close', ...)\<close> with the \<^verbatim>\<open>clientId\<close> of its closure: when
  there is an entry it builds the line for \<^verbatim>\<open>console.log\<close> (the text of the
  username can throw, and nothing catches it), removes the entry, and tells every remaining
  entry whose socket is open.
\<close>

fun notify_disconnected :: "relay \<Rightarrow> json \<Rightarrow> (nat \<times> client) list \<Rightarrow> relay" where
  "notify_disconnected w v [] = w"
| "notify_disconnected w v ((i, c) # m) =
     notify_disconnected (if readyState w (ws c) = OPEN then ws_send w (ws c) v else w) v m"

definition on_close :: "relay \<Rightarrow> nat \<Rightarrow> exn + relay" where
  "on_close w cid =
     (case map_get (clients w) cid of
        None \<Rightarrow> Inr w
      | Some c \<Rightarrow>
          (case to_string_opt (username c) of
             Inl e \<Rightarrow> Inl e
           | Inr line \<Rightarrow>
               let w1 = w\<lparr> clients := map_delete (clients w) cid \<rparr>
               in Inr (notify_disconnected w1 (peer_disconnected cid (username c)) (clients w1))))"

text \<open>
  The events of the \<^verbatim>\<open>ws\<close> library. A socket that is closed emits nothing more;
  a \<^verbatim>\<open>once\<close> listener is removed before it runs; an exception that leaves a
  listener is uncaught and ends the process.
\<close>

datatype event = Connection | Message sock "json option" | Close sock

definition step :: "relay \<Rightarrow> event \<Rightarrow> relay" where
  "step w ev =
     (if uncaught w \<noteq> None then w
      else case ev of
        Connection \<Rightarrow> on_connection w
      | Message s m \<Rightarrow>
          (if readyState w s = CLOSED then w
           else case (listeners w s, conn w s) of
             (Once, Some cid) \<Rightarrow> once_message (w\<lparr> listeners := (listeners w)(s := NoListener) \<rparr>) s cid m
           | (On un, Some cid) \<Rightarrow>
               (case on_message w cid un m of
                  Inl e \<Rightarrow> w\<lparr> uncaught := Some e \<rparr>
                | Inr w' \<Rightarrow> w')
           | _ \<Rightarrow> w)
      | Close s \<Rightarrow>
          (if readyState w s = CLOSED then w
           else case conn w s of
             None \<Rightarrow> w
           | Some cid \<Rightarrow>
               (let w1 = w\<lparr> readyState := (readyState w)(s := CLOSED) \<rparr>
                in case on_close w1 cid of
                     Inl e \<Rightarrow> w1\<lparr> uncaught := Some e \<rparr>
                   | Inr w' \<Rightarrow> w')))"

fun run :: "relay \<Rightarrow> event list \<Rightarrow> relay" where
  "run w [] = w"
| "run w (ev # evs) = run (step w ev) evs"

text \<open>
  The ids the relay has issued, in the order of the connections; the ids of the registered
  peers, in the order of \<^verbatim>\<open>clients\<close>; the registered peers whose id is the
  value \<open>T\<close> and whose socket is open; the other registered peers whose socket is open.
\<close>

definition issued :: "relay \<Rightarrow> nat list" where
  "issued w = List.map_filter (conn w) [0..<nsocks w]"

definition registered :: "relay \<Rightarrow> nat list" where
  "registered w = map fst (clients w)"

definition receivers :: "relay \<Rightarrow> json \<Rightarrow> (nat \<times> client) list" where
  "receivers w T = filter (\<lambda>e. T = JNum (int (fst e)) \<and> readyState w (ws (snd e)) = OPEN) (clients w)"

definition others_open :: "relay \<Rightarrow> nat \<Rightarrow> (nat \<times> client) list" where
  "others_open w cid = filter (\<lambda>e. fst e \<noteq> cid \<and> readyState w (ws (snd e)) = OPEN) (clients w)"

text \<open>
  What holds in every state the relay reaches: the socket accepted as number \<open>s\<close>
  holds the id \<open>s + 1\<close>; an entry of \<^verbatim>\<open>clients\<close> stands under the id
  its socket holds; no id has two entries.
\<close>

definition wf :: "relay \<Rightarrow> bool" where
  "wf w \<longleftrightarrow>
     nextClientId w = nsocks w + 1 \<and>
     (\<forall>s. conn w s = (if s < nsocks w then Some (s + 1) else None)) \<and>
     (\<forall>e \<in> set (clients w). fst e = ws (snd e) + 1 \<and> ws (snd e) < nsocks w \<and> clientId (snd e) = fst e) \<and>
     distinct (map fst (clients w))"

text \<open>
  In every state the relay reaches, moreover: the socket of an entry has had its first
  frame, and while it is open it carries the listener of the later messages, with the
  username of the entry.
\<close>

definition attached :: "relay \<Rightarrow> bool" where
  "attached w \<longleftrightarrow>
     (\<forall>e \<in> set (clients w). listeners w (ws (snd e)) \<noteq> Once \<and>
        (readyState w (ws (snd e)) = OPEN \<longrightarrow> listeners w (ws (snd e)) = On (username (snd e))))"

text \<open>The frame the client sends first, and a run in which two peers register.\<close>

definition register_frame :: "json \<Rightarrow> json" where
  "register_frame u = JObj [(''type'', JStr ''register''), (''username'', u)]"

definition two_peers :: "event list" where
  "two_peers = [Connection, Connection, Message 0 (Some (register_frame (JStr ''alice''))),
                Message 1 (Some (register_frame (JStr ''bob'')))]"

section \<open>The client\<close>

text \<open>
  \<^verbatim>\<open>src/client.js\<close>. The WebRTC library is outside the program: its operations are
  parameters, functions on a state \<open>'pc\<close> of the library's own for each connection, and
  an operation that rejects returns the message of its error (\<open>Inl\<close>).
  \<^verbatim>\<open>setRemoteDescription\<close> and \<^verbatim>\<open>addIceCandidate\<close> stand for the
  call together with the constructor of its argument
  (\<^verbatim>\<open>new RTCSessionDescription(d)\<close>, \<^verbatim>\<open>new RTCIceCandidate(c)\<close>), which
  the program evaluates at the same place. The constructor of the connection,
  \<^verbatim>\<open>createDataChannel\<close>, \<^verbatim>\<open>close\<close> and the \<^verbatim>\<open>send\<close> of a
  socket or channel are taken not to throw. \<^verbatim>\<open>stringify\<close> is
  \<^verbatim>\<open>JSON.stringify\<close>, as a text.
\<close>

record 'pc rtc =
  newPeerConnection :: 'pc
  createDataChannel :: "'pc \<Rightarrow> 'pc"
  createOffer :: "'pc \<Rightarrow> string + json"
  createAnswer :: "'pc \<Rightarrow> string + json"
  setLocalDescription :: "'pc \<Rightarrow> json \<Rightarrow> string + 'pc"
  setRemoteDescription :: "'pc \<Rightarrow> json option \<Rightarrow> string + 'pc"
  addIceCandidate :: "'pc \<Rightarrow> json option \<Rightarrow> string + 'pc"
  closeConnection :: "'pc \<Rightarrow> 'pc"
  stringify :: "json \<Rightarrow> string"

text \<open>
  A value used as a peer id: the key of the three Maps, and what the handlers of a
  connection or channel hold. A Map compares keys with SameValueZero: a number, a string, a
  boolean, \<^verbatim>\<open>null\<close> and \<^verbatim>\<open>undefined\<close> by value, an object or an array by
  identity. \<^verbatim>\<open>JSON.parse\<close> makes the objects of every frame anew, so an object
  is named by the frame it came in, counted from the first frame the client parsed, and by
  the place in that frame where the program reads it: \<^verbatim>\<open>data.senderId\<close>,
  \<^verbatim>\<open>data.peerId\<close>, or \<^verbatim>\<open>clientId\<close> of the \<open>i\<close>-th entry of
  \<^verbatim>\<open>data.peers\<close>. The key keeps the value, for the frames and log lines that are
  written from it.
\<close>

datatype place = AtSenderId | AtPeerId | AtPeer nat

datatype key = Prim "json option" | Ref nat place json

fun key_of :: "nat \<Rightarrow> place \<Rightarrow> json option \<Rightarrow> key" where
  "key_of n p (Some (JObj kvs)) = Ref n p (JObj kvs)"
| "key_of n p (Some (JArr xs)) = Ref n p (JArr xs)"
| "key_of n p v = Prim v"

fun value_of :: "key \<Rightarrow> json option" where
  "value_of (Prim v) = v"
| "value_of (Ref n p v) = Some v"

text \<open>
  The texts of two values in one template literal, from left to right; the first conversion
  that throws ends it.
\<close>

definition texts :: "json option \<Rightarrow> json option \<Rightarrow> exn + string \<times> string" where
  "texts a b =
     (case to_string_opt a of
        Inl e \<Rightarrow> Inl e
      | Inr x \<Rightarrow> (case to_string_opt b of Inl e \<Rightarrow> Inl e | Inr y \<Rightarrow> Inr (x, y)))"

text \<open>
  An \<^verbatim>\<open>RTCPeerConnection\<close> object: the library's state, whether
  \<^verbatim>\<open>close()\<close> was called on it, the \<^verbatim>\<open>peerId\<close> its handlers hold, and
  whether \<^verbatim>\<open>ondatachannel\<close> is set.
\<close>

record 'pc connection =
  lib :: 'pc
  closed :: bool
  peerOf :: key
  ondatachannel :: bool

datatype channel_state = ChConnecting | ChOpen | ChClosing | ChClosed

text \<open>
  The \<^verbatim>\<open>state\<close> object and what the client writes: the frames sent to the relay
  (\<open>wire\<close>), the payloads sent on data channels (\<open>chat_out\<close>), the calls of the logging
  callback, and the messages \<^verbatim>\<open>appendMessage\<close> has put on the page, each with the
  texts of its two spans. Connections and channels are objects, named by handles, and
  \<open>channelPeer\<close> is the \<^verbatim>\<open>peerId\<close> the handlers of a channel hold.
  \<open>frames\<close> counts the frames \<^verbatim>\<open>ws.onmessage\<close> has parsed.
\<close>

record 'pc chat =
  peerConnections :: "(key \<times> nat) list"
  dataChannels :: "(key \<times> nat) list"
  peerUsernames :: "(key \<times> json option) list"
  myPeerId :: json
  cfg_username :: json
  conns :: "nat \<Rightarrow> 'pc connection"
  nextConn :: nat
  channelState :: "nat \<Rightarrow> channel_state"
  channelPeer :: "nat \<Rightarrow> key"
  nextChannel :: nat
  frames :: nat
  wire :: "json list"
  chat_out :: "(nat \<times> json) list"
  logs :: "(string \<times> string) list"
  shown :: "(string \<times> string) list"

definition init_chat :: "'pc rtc \<Rightarrow> json \<Rightarrow> 'pc chat" where
  "init_chat L u =
     \<lparr> peerConnections = [], dataChannels = [], peerUsernames = [], myPeerId = JNull,
       cfg_username = u,
       conns = (\<lambda>h. \<lparr> lib = newPeerConnection L, closed = False, peerOf = Prim None, ondatachannel = False \<rparr>),
       nextConn = 0, channelState = (\<lambda>h. ChConnecting), channelPeer = (\<lambda>h. Prim None), nextChannel = 0,
       frames = 0, wire = [], chat_out = [], logs = [], shown = [] \<rparr>"

definition log :: "'pc chat \<Rightarrow> string \<Rightarrow> string \<Rightarrow> 'pc chat" where
  "log st level message = st\<lparr> logs := logs st @ [(level, message)] \<rparr>"

definition ws_onopen :: "'pc chat \<Rightarrow> 'pc chat" where
  "ws_onopen st = st\<lparr> wire := wire st @ [register_frame (cfg_username st)] \<rparr>"

text \<open>
  \<^verbatim>\<open>appendMessage(message, username)\<close>: the text of the username span is built
  first, then the text of the message span, and the message is put on the page last.
\<close>

definition appendMessage :: "'pc chat \<Rightarrow> json option \<Rightarrow> json option \<Rightarrow> (exn + unit) \<times> 'pc chat" where
  "appendMessage st message un =
     (case texts un message of
        Inl e \<Rightarrow> (Inl e, st)
      | Inr (u, m) \<Rightarrow> (Inr (), st\<lparr> shown := shown st @ [(u @ '':'', '' '' @ m)] \<rparr>))"

text \<open>\<^verbatim>\<open>setupDataChannel(channel, peerId)\<close>.\<close>

definition setupDataChannel :: "'pc chat \<Rightarrow> nat \<Rightarrow> key \<Rightarrow> 'pc chat" where
  "setupDataChannel st channel peerId =
     st\<lparr> dataChannels := map_set (dataChannels st) peerId channel,
         channelPeer := (channelPeer st)(channel := peerId) \<rparr>"

text \<open>
  The handlers of a channel set up for \<open>peerId\<close>: \<^verbatim>\<open>onopen\<close>,
  \<^verbatim>\<open>onclose\<close> and \<^verbatim>\<open>onmessage\<close> on a payload. What a handler throws
  leaves it (\<open>Inl\<close>), with the state as it is then.
\<close>

definition peerUsername :: "'pc chat \<Rightarrow> key \<Rightarrow> json option" where
  "peerUsername st peerId = (case map_get (peerUsernames st) peerId of None \<Rightarrow> None | Some u \<Rightarrow> u)"

definition channel_onopen :: "'pc chat \<Rightarrow> key \<Rightarrow> (exn + unit) \<times> 'pc chat" where
  "channel_onopen st peerId =
     (case texts (peerUsername st peerId) (value_of peerId) of
        Inl e \<Rightarrow> (Inl e, st)
      | Inr (u, p) \<Rightarrow> (Inr (), log st ''info'' (''Data channel to '' @ u @ '' ('' @ p @ '') opened'')))"

definition channel_onclose :: "'pc chat \<Rightarrow> key \<Rightarrow> (exn + unit) \<times> 'pc chat" where
  "channel_onclose st peerId =
     (case texts (peerUsername st peerId) (value_of peerId) of
        Inl e \<Rightarrow> (Inl e, st)
      | Inr (u, p) \<Rightarrow>
          (let st1 = log st ''info'' (''Data channel to '' @ u @ '' ('' @ p @ '') closed'')
           in (Inr (), st1\<lparr> dataChannels := map_delete (dataChannels st1) peerId \<rparr>)))"

definition channel_onmessage :: "'pc chat \<Rightarrow> json option \<Rightarrow> (exn + unit) \<times> 'pc chat" where
  "channel_onmessage st payload =
     (case payload of
        None \<Rightarrow> (Inl SyntaxError, st)
      | Some data \<Rightarrow>
          (case get_prop data ''message'' of
             Inl e \<Rightarrow> (Inl e, st)
           | Inr message \<Rightarrow> appendMessage st message (field data ''username'')))"

text \<open>
  The handler \<^verbatim>\<open>onicecandidate\<close> of a connection made for \<open>peerId\<close>, on an event
  with the given \<^verbatim>\<open>event.candidate\<close>.
\<close>

definition onicecandidate :: "'pc chat \<Rightarrow> key \<Rightarrow> json \<Rightarrow> 'pc chat" where
  "onicecandidate st peerId candidate =
     (if truthy candidate
      then st\<lparr> wire := wire st @
             [JObj ([(''type'', JStr ''ice-candidate''), (''candidate'', candidate)]
                    @ opt_field ''targetPeerId'' (value_of peerId))] \<rparr>
      else st)"

text \<open>
  An \<^verbatim>\<open>async\<close> function returns what it returns or what it throws (\<open>Inl\<close>),
  with the state it leaves; a handler is run to its end before the next event.
  \<^verbatim>\<open>createPeerConnection(peerId, initiator)\<close> returns the handle of the new
  connection.
\<close>

definition createPeerConnection ::
  "'pc rtc \<Rightarrow> 'pc chat \<Rightarrow> key \<Rightarrow> bool \<Rightarrow> (exn + nat) \<times> 'pc chat" where
  "createPeerConnection L st peerId initiator =
     (let h = nextConn st;
          st1 = st\<lparr> conns := (conns st)(h := \<lparr> lib = newPeerConnection L, closed = False,
                                               peerOf = peerId, ondatachannel = False \<rparr>),
                    nextConn := h + 1,
                    peerConnections := map_set (peerConnections st) peerId h \<rparr>
      in if initiator then
           (let ch = nextChannel st1;
                p1 = createDataChannel L (lib (conns st1 h));
                st2 = setupDataChannel
                        (st1\<lparr> conns := (conns st1)(h := (conns st1 h)\<lparr> lib := p1 \<rparr>),
                              channelState := (channelState st1)(ch := ChConnecting),
                              nextChannel := ch + 1 \<rparr>) ch peerId
            in case createOffer L p1 of
                 Inl msg \<Rightarrow> (Inl (Error msg), st2)
               | Inr offer \<Rightarrow>
                   (case setLocalDescription L p1 offer of
                      Inl msg \<Rightarrow> (Inl (Error msg), st2)
                    | Inr p2 \<Rightarrow>
                        (Inr h, st2\<lparr> conns := (conns st2)(h := (conns st2 h)\<lparr> lib := p2 \<rparr>),
                                    wire := wire st2 @
                                      [JObj ([(''type'', JStr ''offer''), (''offer'', offer)]
                                             @ opt_field ''targetPeerId'' (value_of peerId))] \<rparr>)))
         else (Inr h, st1\<lparr> conns := (conns st1)(h := (conns st1 h)\<lparr> ondatachannel := True \<rparr>) \<rparr>))"

text \<open>
  \<^verbatim>\<open>handleOffer(data)\<close>, where \<open>data\<close> is the frame number \<open>n\<close>: no
  \<^verbatim>\<open>try\<close>; what the library rejects, it rejects.
\<close>

definition handleOffer :: "'pc rtc \<Rightarrow> 'pc chat \<Rightarrow> nat \<Rightarrow> json \<Rightarrow> (exn + unit) \<times> 'pc chat" where
  "handleOffer L st n data =
     (case get_prop data ''senderId'' of
        Inl e \<Rightarrow> (Inl e, st)
      | Inr senderId \<Rightarrow>
          (let peerId = key_of n AtSenderId senderId in
           case (case map_get (peerConnections st) peerId of
                   Some h \<Rightarrow> (Inr h, st)
                 | None \<Rightarrow> createPeerConnection L st peerId False) of
             (Inl e, st1) \<Rightarrow> (Inl e, st1)
           | (Inr h, st1) \<Rightarrow>
               (case setRemoteDescription L (lib (conns st1 h)) (field data ''offer'') of
                  Inl msg \<Rightarrow> (Inl (Error msg), st1)
                | Inr p1 \<Rightarrow>
                    (let st2 = st1\<lparr> conns := (conns st1)(h := (conns st1 h)\<lparr> lib := p1 \<rparr>) \<rparr>
                     in case createAnswer L p1 of
                          Inl msg \<Rightarrow> (Inl (Error msg), st2)
                        | Inr answer \<Rightarrow>
                            (case setLocalDescription L p1 answer of
                               Inl msg \<Rightarrow> (Inl (Error msg), st2)
                             | Inr p2 \<Rightarrow>
                                 (Inr (),
                                  st2\<lparr> conns := (conns st2)(h := (conns st2 h)\<lparr> lib := p2 \<rparr>),
                                       wire := wire st2 @
                                         [JObj ([(''type'', JStr ''answer''), (''answer'', answer)]
                                                @ opt_field ''targetPeerId'' (value_of peerId))] \<rparr>))))))"

text \<open>
  \<^verbatim>\<open>handleAnswer(data)\<close> and \<^verbatim>\<open>handleIceCandidate(data)\<close>: the
  \<^verbatim>\<open>catch\<close> logs the message of the error at level \<^verbatim>\<open>error\<close>.
\<close>

definition handleAnswer :: "'pc rtc \<Rightarrow> 'pc chat \<Rightarrow> nat \<Rightarrow> json \<Rightarrow> (exn + unit) \<times> 'pc chat" where
  "handleAnswer L st n data =
     (case get_prop data ''senderId'' of
        Inl e \<Rightarrow> (Inl e, st)
      | Inr senderId \<Rightarrow>
          (case map_get (peerConnections st) (key_of n AtSenderId senderId) of
             None \<Rightarrow> (Inr (), st)
           | Some h \<Rightarrow>
               (case setRemoteDescription L (lib (conns st h)) (field data ''answer'') of
                  Inl msg \<Rightarrow> (Inr (), log st ''error'' (''Error setting remote description: '' @ msg))
                | Inr p1 \<Rightarrow> (Inr (), st\<lparr> conns := (conns st)(h := (conns st h)\<lparr> lib := p1 \<rparr>) \<rparr>))))"

definition handleIceCandidate :: "'pc rtc \<Rightarrow> 'pc chat \<Rightarrow> nat \<Rightarrow> json \<Rightarrow> (exn + unit) \<times> 'pc chat" where
  "handleIceCandidate L st n data =
     (case get_prop data ''senderId'' of
        Inl e \<Rightarrow> (Inl e, st)
      | Inr senderId \<Rightarrow>
          (case map_get (peerConnections st) (key_of n AtSenderId senderId) of
             None \<Rightarrow> (Inr (), st)
           | Some h \<Rightarrow>
               (case addIceCandidate L (lib (conns st h)) (field data ''candidate'') of
                  Inl msg \<Rightarrow> (Inr (), log st ''error'' (''Error adding received ice candidate: '' @ msg))
                | Inr p1 \<Rightarrow> (Inr (), st\<lparr> conns := (conns st)(h := (conns st h)\<lparr> lib := p1 \<rparr>) \<rparr>))))"

text \<open>
  \<^verbatim>\<open>handlePeerDisconnection(peerId, username)\<close>: the line for the log is built
  last, and the text of a value in it can throw, after the records are removed.
\<close>

definition handlePeerDisconnection ::
  "'pc rtc \<Rightarrow> 'pc chat \<Rightarrow> key \<Rightarrow> json option \<Rightarrow> (exn + unit) \<times> 'pc chat" where
  "handlePeerDisconnection L st peerId un =
     (let st1 = (case map_get (peerConnections st) peerId of
                   None \<Rightarrow> st
                 | Some h \<Rightarrow>
                     st\<lparr> conns := (conns st)(h := (conns st h)\<lparr> lib := closeConnection L (lib (conns st h)),
                                                                closed := True \<rparr>),
                         peerConnections := map_delete (peerConnections st) peerId \<rparr>);
          st2 = st1\<lparr> dataChannels := map_delete (dataChannels st1) peerId \<rparr>;
          st3 = st2\<lparr> peerUsernames := map_delete (peerUsernames st2) peerId \<rparr>
      in case texts un (value_of peerId) of
           Inl e \<Rightarrow> (Inl e, st3)
         | Inr (u, p) \<Rightarrow> (Inr (), log st3 ''info'' (''Peer '' @ u @ '' ('' @ p @ '') disconnected'')))"

text \<open>
  The loop of \<^verbatim>\<open>existing-peers\<close> over the entries of \<^verbatim>\<open>data.peers\<close>, from
  entry number \<open>i\<close> on; it stops where an entry throws.
\<close>

fun existing_peers_loop ::
  "'pc rtc \<Rightarrow> 'pc chat \<Rightarrow> nat \<Rightarrow> nat \<Rightarrow> json list \<Rightarrow> (exn + unit) \<times> 'pc chat" where
  "existing_peers_loop L st n i [] = (Inr (), st)"
| "existing_peers_loop L st n i (peer # peers) =
     (case get_prop peer ''clientId'' of
        Inl e \<Rightarrow> (Inl e, st)
      | Inr cid \<Rightarrow>
          (case createPeerConnection L
                  (st\<lparr> peerUsernames :=
                         map_set (peerUsernames st) (key_of n (AtPeer i) cid) (field peer ''username'') \<rparr>)
                  (key_of n (AtPeer i) cid) True of
             (Inl e, st1) \<Rightarrow> (Inl e, st1)
           | (Inr h, st1) \<Rightarrow> existing_peers_loop L st1 n (i + 1) peers))"

text \<open>
  What \<^verbatim>\<open>for (const peer of v)\<close> iterates: the entries of an array, the characters
  of a string; any other value is not iterable (a TypeError).
\<close>

fun iterate :: "json option \<Rightarrow> exn + json list" where
  "iterate (Some (JArr xs)) = Inr xs"
| "iterate (Some (JStr s)) = Inr (map (\<lambda>c. JStr [c]) s)"
| "iterate v = Inl TypeError"

text \<open>
  \<^verbatim>\<open>ws.onmessage\<close>, on a frame of the relay: the
  \<^verbatim>\<open>switch (data.type)\<close> on the frame number \<open>n\<close> first, then the whole
  handler.
\<close>

definition switch_type :: "'pc rtc \<Rightarrow> 'pc chat \<Rightarrow> nat \<Rightarrow> json \<Rightarrow> (exn + unit) \<times> 'pc chat" where
  "switch_type L st n data =
     (case get_prop data ''type'' of
        Inl e \<Rightarrow> (Inl e, st)
      | Inr ty \<Rightarrow>
          if ty = Some (JStr ''existing-peers'') then
            (case iterate (field data ''peers'') of
               Inl e \<Rightarrow> (Inl e, st)
             | Inr peers \<Rightarrow> existing_peers_loop L st n 0 peers)
          else if ty = Some (JStr ''new-peer'') then
            (case createPeerConnection L
                    (st\<lparr> peerUsernames :=
                           map_set (peerUsernames st) (key_of n AtPeerId (field data ''peerId''))
                             (field data ''username'') \<rparr>)
                    (key_of n AtPeerId (field data ''peerId'')) False of
               (Inl e, st1) \<Rightarrow> (Inl e, st1)
             | (Inr h, st1) \<Rightarrow> (Inr (), st1))
          else if ty = Some (JStr ''offer'') then
            handleOffer L
              (st\<lparr> peerUsernames :=
                     map_set (peerUsernames st) (key_of n AtSenderId (field data ''senderId''))
                       (field data ''username'') \<rparr>)
              n data
          else if ty = Some (JStr ''answer'') then handleAnswer L st n data
          else if ty = Some (JStr ''ice-candidate'') then handleIceCandidate L st n data
          else if ty = Some (JStr ''peer-disconnected'') then
            handlePeerDisconnection L st (key_of n AtPeerId (field data ''peerId'')) (field data ''username'')
          else (Inr (), st))"

definition ws_onmessage :: "'pc rtc \<Rightarrow> 'pc chat \<Rightarrow> json option \<Rightarrow> (exn + unit) \<times> 'pc chat" where
  "ws_onmessage L st frame =
     (case frame of
        None \<Rightarrow> (Inl SyntaxError, st)
      | Some data \<Rightarrow>
          (let n = frames st;
               st0 = log (st\<lparr> frames := n + 1 \<rparr>) ''debug'' (''Received message: '' @ stringify L data)
           in
           if \<not> truthy (myPeerId st0) then
             (case get_prop data ''senderId'' of
                Inl e \<Rightarrow> (Inl e, st0)
              | Inr None \<Rightarrow> switch_type L st0 n data
              | Inr (Some senderId) \<Rightarrow>
                  switch_type L (if truthy senderId then st0\<lparr> myPeerId := senderId \<rparr> else st0) n data)
           else switch_type L st0 n data))"

text \<open>
  \<^verbatim>\<open>sendMessage()\<close>, where \<open>message\<close> is \<^verbatim>\<open>inputElement.value.trim()\<close>:
  the same payload to every channel of \<^verbatim>\<open>dataChannels\<close> that is open, and then the
  message on the page.
\<close>

fun fan_out :: "'pc chat \<Rightarrow> json \<Rightarrow> (key \<times> nat) list \<Rightarrow> 'pc chat" where
  "fan_out st payload [] = st"
| "fan_out st payload ((peerId, channel) # m) =
     fan_out (if channelState st channel = ChOpen
              then st\<lparr> chat_out := chat_out st @ [(channel, payload)] \<rparr> else st) payload m"

definition sendMessage :: "'pc chat \<Rightarrow> string \<Rightarrow> (exn + unit) \<times> 'pc chat" where
  "sendMessage st message =
     (if message \<noteq> [] then
        (let messageData = JObj [(''message'', JStr message), (''senderId'', myPeerId st),
                                 (''username'', cfg_username st)];
             st1 = fan_out st messageData (dataChannels st)
         in appendMessage st1 (Some (JStr message)) (Some (cfg_username st)))
      else (Inr (), st))"

text \<open>
  The value of \<^verbatim>\<open>myPeerId\<close> after the first statement of
  \<^verbatim>\<open>ws.onmessage\<close>, and the client on a sequence of frames.
\<close>

definition learn :: "json \<Rightarrow> json option \<Rightarrow> json" where
  "learn mine senderId =
     (case senderId of None \<Rightarrow> mine | Some v \<Rightarrow> if \<not> truthy mine \<and> truthy v then v else mine)"

fun receive :: "'pc rtc \<Rightarrow> 'pc chat \<Rightarrow> json option list \<Rightarrow> 'pc chat" where
  "receive L st [] = st"
| "receive L st (f # fs) = receive L (snd (ws_onmessage L st f)) fs"

text \<open>The state of the client without its log.\<close>

definition erase_logs :: "'pc chat \<Rightarrow> 'pc chat" where
  "erase_logs st = st\<lparr> logs := [] \<rparr>"

subsection \<open>A library for the examples\<close>

text \<open>
  A library that does what the WebRTC API documents, as far as the examples need it: a
  connection keeps its two descriptions and the remote candidates added to it;
  \<^verbatim>\<open>setRemoteDescription\<close> rejects a description without an
  \<^verbatim>\<open>sdp\<close> text, and \<^verbatim>\<open>addIceCandidate\<close> rejects while the remote
  description is \<^verbatim>\<open>null\<close>.
\<close>

record webrtc =
  localDesc :: "json option"
  remoteDesc :: "json option"
  cands :: "json option list"
  shut :: bool

fun parses :: "json option \<Rightarrow> bool" where
  "parses (Some (JObj kvs)) = (case map_of kvs ''sdp'' of Some (JStr x) \<Rightarrow> True | _ \<Rightarrow> False)"
| "parses d = False"

definition simple_rtc :: "webrtc rtc" where
  "simple_rtc =
     \<lparr> newPeerConnection = \<lparr> localDesc = None, remoteDesc = None, cands = [], shut = False \<rparr>,
       createDataChannel = (\<lambda>p. p),
       createOffer = (\<lambda>p. Inr (JObj [(''type'', JStr ''offer''), (''sdp'', JStr ''v=0'')])),
       createAnswer = (\<lambda>p. Inr (JObj [(''type'', JStr ''answer''), (''sdp'', JStr ''v=0'')])),
       setLocalDescription = (\<lambda>p d. Inr (p\<lparr> localDesc := Some d \<rparr>)),
       setRemoteDescription = (\<lambda>p d. if parses d then Inr (p\<lparr> remoteDesc := d \<rparr>)
                                        else Inl ''Failed to parse SessionDescription''),
       addIceCandidate = (\<lambda>p c. if remoteDesc p = None then Inl ''The remote description was null''
                                   else Inr (p\<lparr> cands := cands p @ [c] \<rparr>)),
       closeConnection = (\<lambda>p. p\<lparr> shut := True \<rparr>),
       stringify = (\<lambda>v. ''json'') \<rparr>"

text \<open>
  An \<^verbatim>\<open>offer\<close> envelope whose description has no \<^verbatim>\<open>sdp\<close>, as the
  relay forwards it from peer 2; and the frames a client receives when, after
  \<^verbatim>\<open>existing-peers\<close>, a candidate of peer 1 arrives before its answer.
\<close>

definition bad_offer :: json where
  "bad_offer = JObj [(''type'', JStr ''offer''), (''offer'', JObj [(''type'', JStr ''offer'')]),
                     (''targetPeerId'', JNum 1), (''senderId'', JNum 2), (''username'', JStr ''bob'')]"

definition early_candidate :: "json option list" where
  "early_candidate =
     [Some (JObj [(''type'', JStr ''existing-peers''),
                  (''peers'', JArr [JObj [(''clientId'', JNum 1), (''username'', JStr ''alice'')]])]),
      Some (JObj [(''type'', JStr ''ice-candidate''), (''candidate'', JObj [(''candidate'', JStr ''c1'')]),
                  (''targetPeerId'', JNum 2), (''senderId'', JNum 1), (''username'', JStr ''alice'')]),
      Some (JObj [(''type'', JStr ''answer''),
                  (''answer'', JObj [(''type'', JStr ''answer''), (''sdp'', JStr ''v=0'')]),
                  (''targetPeerId'', JNum 2), (''senderId'', JNum 1), (''username'', JStr ''alice'')])]"

text \<open>The client that has handled the first of these frames: its offer to peer 1 is out.\<close>

definition awaiting_answer :: "webrtc chat" where
  "awaiting_answer = receive simple_rtc (init_chat simple_rtc (JStr ''bob'')) (take 1 early_candidate)"

text \<open>
  Two frames about a peer whose id is an object: the relay writes numbers, but a frame can
  carry any value.
\<close>

definition object_id_frames :: "json option list" where
  "object_id_frames =
     [Some (JObj [(''type'', JStr ''new-peer''), (''peerId'', JObj [(''x'', JNum 1)]),
                  (''username'', JStr ''eve'')]),
      Some (JObj [(''type'', JStr ''peer-disconnected''), (''peerId'', JObj [(''x'', JNum 1)]),
                  (''username'', JStr ''eve'')])]"

section \<open>The relay and a client together\<close>

text \<open>
  The relay, and one client that runs \<^verbatim>\<open>client.js\<close> on the socket \<open>me\<close>;
  every other socket may send any frame. \<open>forwarded\<close> counts the frames of the client
  that the relay has received, \<open>delivered\<close> the frames the relay sent on the client's
  socket that the client has handled.
\<close>

record 'pc system =
  relay_of :: relay
  client_of :: "'pc chat"
  delivered :: nat
  forwarded :: nat

definition inbox :: "relay \<Rightarrow> sock \<Rightarrow> json list" where
  "inbox w s = map snd (filter (\<lambda>e. fst e = s) (sent w))"

text \<open>
  The events: an event of the relay that is not a frame on the client's socket; the client's
  \<^verbatim>\<open>onopen\<close>; the relay receives the next frame of the client; the client
  handles the next frame of the relay; and the events of the WebRTC library and of the page
  on the client: \<^verbatim>\<open>onicecandidate\<close> and \<^verbatim>\<open>ondatachannel\<close> of a
  connection, a channel that changes its \<^verbatim>\<open>readyState\<close>, a payload on a
  channel, and \<^verbatim>\<open>sendMessage\<close>. The events come in any order. What a handler of
  the client throws is reported by the browser and ends that handler only.
\<close>

datatype sys_event =
    Net event
  | WsOpen
  | Uplink
  | Downlink
  | IceEvent nat json
  | DataChannelEvent nat
  | ChannelState nat channel_state
  | ChannelMessage nat "json option"
  | Send string

definition sys_step :: "sock \<Rightarrow> 'pc rtc \<Rightarrow> 'pc system \<Rightarrow> sys_event \<Rightarrow> 'pc system" where
  "sys_step me L S ev =
     (let w = relay_of S; c = client_of S in
      case ev of
        Net e \<Rightarrow>
          (case e of
             Message s m \<Rightarrow> if s = me then S else S\<lparr> relay_of := step w e \<rparr>
           | _ \<Rightarrow> S\<lparr> relay_of := step w e \<rparr>)
      | WsOpen \<Rightarrow> S\<lparr> client_of := ws_onopen c \<rparr>
      | Uplink \<Rightarrow>
          if forwarded S < length (wire c)
          then S\<lparr> relay_of := step w (Message me (Some (wire c ! forwarded S))),
                  forwarded := forwarded S + 1 \<rparr>
          else S
      | Downlink \<Rightarrow>
          if delivered S < length (inbox w me)
          then S\<lparr> client_of := snd (ws_onmessage L c (Some (inbox w me ! delivered S))),
                  delivered := delivered S + 1 \<rparr>
          else S
      | IceEvent h candidate \<Rightarrow>
          if h < nextConn c then S\<lparr> client_of := onicecandidate c (peerOf (conns c h)) candidate \<rparr> else S
      | DataChannelEvent h \<Rightarrow>
          if h < nextConn c \<and> ondatachannel (conns c h)
          then S\<lparr> client_of :=
                    setupDataChannel
                      (c\<lparr> channelState := (channelState c)(nextChannel c := ChConnecting),
                          nextChannel := nextChannel c + 1 \<rparr>)
                      (nextChannel c) (peerOf (conns c h)) \<rparr>
          else S
      | ChannelState ch x \<Rightarrow>
          if ch < nextChannel c then
            (let c1 = c\<lparr> channelState := (channelState c)(ch := x) \<rparr>
             in S\<lparr> client_of :=
                      (if x = ChOpen then snd (channel_onopen c1 (channelPeer c1 ch))
                       else if x = ChClosed then snd (channel_onclose c1 (channelPeer c1 ch))
                       else c1) \<rparr>)
          else S
      | ChannelMessage ch payload \<Rightarrow>
          if ch < nextChannel c then S\<lparr> client_of := snd (channel_onmessage c payload) \<rparr> else S
      | Send message \<Rightarrow> S\<lparr> client_of := snd (sendMessage c message) \<rparr>)"

definition sys_init :: "'pc rtc \<Rightarrow> json \<Rightarrow> 'pc system" where
  "sys_init L u = \<lparr> relay_of = init, client_of = init_chat L u, delivered = 0, forwarded = 0 \<rparr>"

fun sys_run :: "sock \<Rightarrow> 'pc rtc \<Rightarrow> 'pc system \<Rightarrow> sys_event list \<Rightarrow> 'pc system" where
  "sys_run me L S [] = S"
| "sys_run me L S (ev # evs) = sys_run me L (sys_step me L S ev) evs"

text \<open>
  A run in which bob (socket 0, id 1) is registered when the client (alice, socket 1, id 2)
  connects; the client makes its offer, bob answers, the channel opens, and the client sends
  a chat message.
\<close>

definition demo :: "sys_event list" where
  "demo =
     [Net Connection,
      Net (Message 0 (Some (register_frame (JStr ''bob'')))),
      Net Connection,
      WsOpen, Uplink, Downlink, Uplink,
      Net (Message 0 (Some (JObj [(''type'', JStr ''answer''),
                                  (''answer'', JObj [(''type'', JStr ''answer''), (''sdp'', JStr ''v=0'')]),
                                  (''targetPeerId'', JNum 2)]))),
      Downlink,
      ChannelState 0 ChOpen,
      Send ''hi'']"

text \<open>
  What the proof about the two together keeps: \<open>remote_id\<close>, an id the relay has issued
  that is not the client's; \<open>safe\<close>, a frame on the client's socket that carries such
  an id as \<^verbatim>\<open>senderId\<close> or, having none, names the client in no list of peers;
  \<open>tame\<close>, a client that has no connection to its own id and has addressed no frame to
  it.
\<close>

definition remote_id :: "nat \<Rightarrow> nat \<Rightarrow> json \<Rightarrow> bool" where
  "remote_id n a v \<longleftrightarrow> (\<exists>k. v = JNum (int k) \<and> 1 \<le> k \<and> k \<le> n \<and> k \<noteq> a)"

definition quiet :: "nat \<Rightarrow> (string \<times> json) list \<Rightarrow> bool" where
  "quiet a kvs \<longleftrightarrow>
     (map_of kvs ''type'' = Some (JStr ''existing-peers'') \<longrightarrow>
        (\<forall>ps. iterate (map_of kvs ''peers'') = Inr ps \<longrightarrow>
              (\<forall>p \<in> set ps. field p ''clientId'' \<noteq> Some (JNum (int a))))) \<and>
     (map_of kvs ''type'' = Some (JStr ''new-peer'') \<longrightarrow> map_of kvs ''peerId'' \<noteq> Some (JNum (int a)))"

definition safe :: "nat \<Rightarrow> nat \<Rightarrow> json \<Rightarrow> bool" where
  "safe n a f \<longleftrightarrow>
     (case f of
        JObj kvs \<Rightarrow>
          (case map_of kvs ''senderId'' of
             Some v \<Rightarrow> remote_id n a v
           | None \<Rightarrow> quiet a kvs)
      | _ \<Rightarrow> False)"

definition tame :: "nat \<Rightarrow> 'pc chat \<Rightarrow> bool" where
  "tame a st \<longleftrightarrow>
     (\<forall>h. value_of (peerOf (conns st h)) \<noteq> Some (JNum (int a))) \<and>
     (\<forall>f \<in> set (wire st). field f ''targetPeerId'' \<noteq> Some (JNum (int a)))"

definition sender_ok :: "nat \<Rightarrow> nat \<Rightarrow> json \<Rightarrow> bool" where
  "sender_ok n a p \<longleftrightarrow>
     field p ''senderId'' = Some JNull \<or> (\<exists>v. field p ''senderId'' = Some v \<and> remote_id n a v)"

definition sys_inv :: "sock \<Rightarrow> 'pc system \<Rightarrow> bool" where
  "sys_inv me S \<longleftrightarrow>
     wf (relay_of S) \<and>
     (myPeerId (client_of S) = JNull \<or> remote_id (nsocks (relay_of S)) (me + 1) (myPeerId (client_of S))) \<and>
     (myPeerId (client_of S) = JNull \<longrightarrow>
        tame (me + 1) (client_of S) \<and>
        (\<forall>g \<in> set (inbox (relay_of S) me). safe (nsocks (relay_of S)) (me + 1) g)) \<and>
     (\<forall>e \<in> set (chat_out (client_of S)). sender_ok (nsocks (relay_of S)) (me + 1) (snd e))"

text \<open>
  What holds of the ids in every state the client reaches: an object that the client holds
  as a peer id came in a frame it has parsed, so the objects of the next frame are new.
\<close>

fun older :: "nat \<Rightarrow> key \<Rightarrow> bool" where
  "older n (Prim v) = True"
| "older n (Ref m p v) = (m < n)"

definition fresh :: "'pc chat \<Rightarrow> bool" where
  "fresh st \<longleftrightarrow>
     (\<forall>e \<in> set (peerConnections st). older (frames st) (fst e)) \<and>
     (\<forall>e \<in> set (dataChannels st). older (frames st) (fst e)) \<and>
     (\<forall>e \<in> set (peerUsernames st). older (frames st) (fst e)) \<and>
     (\<forall>h. older (frames st) (peerOf (conns st h))) \<and>
     (\<forall>c. older (frames st) (channelPeer st c))"

section \<open>Properties of the relay\<close>

lemma run_append: "run w (xs @ ys) = run (run w xs) ys"
  by (induction xs arbitrary: w) auto

lemmas relay_defs = init_def step_def on_connection_def once_message_def register_body_def
  on_message_def on_close_def ws_send_def ws_close_def peer_entry_def existing_peers_def
  new_peer_def peer_disconnected_def register_frame_def two_peers_def

subsection \<open>Maps and objects\<close>

lemma map_get_map_of: "map_get m k = map_of m k"
  by (induction m) auto

lemma map_delete_filter: "map_delete m k = filter (\<lambda>e. fst e \<noteq> k) m"
  by (induction m) auto

lemma set_map_set: "set (map_set m k v) \<subseteq> insert (k, v) (set m)"
  by (induction m) (auto split: if_splits)

lemma keys_map_set:
  "map fst (map_set m k v) = (if k \<in> set (map fst m) then map fst m else map fst m @ [k])"
  by (induction m) (auto split: if_splits)

lemma filter_map_set_other:
  "filter (\<lambda>e. fst e \<noteq> k) (map_set m k v) = filter (\<lambda>e. fst e \<noteq> k) m"
  by (induction m) auto

lemma filter_map_set_and:
  "filter (\<lambda>e. fst e \<noteq> k \<and> P e) (map_set m k v) = filter (\<lambda>e. fst e \<noteq> k \<and> P e) m"
  by (induction m) auto

lemma filter_key_distinct:
  "distinct (map fst m) \<Longrightarrow>
   filter (\<lambda>e. fst e = k) m = (case map_of m k of None \<Rightarrow> [] | Some v \<Rightarrow> [(k, v)])"
proof (induction m)
  case (Cons e m)
  obtain k' v' where e: "e = (k', v')" by (cases e)
  show ?case
  proof (cases "k' = k")
    case True
    then have "k \<notin> fst ` set m" using Cons.prems e by simp
    then have "filter (\<lambda>e. fst e = k) m = []" by (auto simp: filter_empty_conv)
    then show ?thesis using True e by simp
  next
    case False
    then show ?thesis using Cons e by simp
  qed
qed simp

lemma map_of_put_other: "k' \<noteq> k \<Longrightarrow> map_of (put kvs k v) k' = map_of kvs k'"
  by (induction kvs) auto

lemma map_of_put_same: "map_of (put kvs k v) k = Some v"
  by (induction kvs) auto

lemma map_of_filter_key:
  "map_of (filter (\<lambda>kv. fst kv \<noteq> k) kvs) k' = (if k' = k then None else map_of kvs k')"
  by (induction kvs) auto

lemma map_of_put_opt: "map_of (put_opt kvs k v) k' = (if k' = k then v else map_of kvs k')"
  by (cases v) (auto simp: map_of_put_other map_of_put_same map_of_filter_key)

subsection \<open>The two loops of the relay\<close>

lemma notify_new_peer_eq:
  "notify_new_peer w cid un m =
     w\<lparr> sent := sent w @ map (\<lambda>e. (ws (snd e), new_peer cid un))
                         (filter (\<lambda>e. fst e \<noteq> cid \<and> readyState w (ws (snd e)) = OPEN) m) \<rparr>"
  by (induction m arbitrary: w) (auto simp: ws_send_def)

lemma notify_disconnected_eq:
  "notify_disconnected w v m =
     w\<lparr> sent := sent w @ map (\<lambda>e. (ws (snd e), v))
                         (filter (\<lambda>e. readyState w (ws (snd e)) = OPEN) m) \<rparr>"
  by (induction m arbitrary: w) (auto simp: ws_send_def)

subsection \<open>The first frame\<close>

text \<open>
  What the listener of the first frame does, case by case: a frame that does not parse or
  whose \<^verbatim>\<open>type\<close> is not \<^verbatim>\<open>register\<close> closes the socket and changes
  nothing else; a register frame stores the entry, and then either the line for the console
  throws and the socket is closed, or the envelopes are sent and the listener of the later
  messages is attached.
\<close>

lemma first_frame_violation:
  assumes "m = None \<or> (\<exists>d. m = Some d \<and> get_prop d ''type'' \<noteq> Inr (Some (JStr ''register'')))"
  shows "once_message w s cid m = ws_close w s"
  using assms by (auto simp: once_message_def register_body_def split: sum.splits option.splits)

lemma once_message_register:
  assumes "map_of kvs ''type'' = Some (JStr ''register'')"
  shows "once_message w s cid (Some (JObj kvs)) =
     (let un = map_of kvs ''username'';
          m = map_set (clients w) cid \<lparr> ws = s, username = un, clientId = cid \<rparr>
      in case to_string_opt un of
           Inl e \<Rightarrow>
             w\<lparr> clients := m,
                readyState := (readyState w)(s := (if readyState w s = CLOSED then CLOSED else CLOSING)) \<rparr>
         | Inr line \<Rightarrow>
             w\<lparr> clients := m,
                sent := sent w
                  @ (if filter (\<lambda>e. fst e \<noteq> cid) (clients w) = [] then []
                     else [(s, existing_peers (map peer_entry (filter (\<lambda>e. fst e \<noteq> cid) (clients w))))])
                  @ map (\<lambda>e. (ws (snd e), new_peer cid un)) (others_open w cid),
                listeners := (listeners w)(s := On un) \<rparr>)"
  using assms
  by (simp add: once_message_def register_body_def Let_def notify_new_peer_eq ws_send_def ws_close_def
      filter_map_set_other filter_map_set_and others_open_def split: sum.split)

lemma once_message_cases:
  "once_message w s cid m = ws_close w s \<or>
   (\<exists>kvs. m = Some (JObj kvs) \<and> map_of kvs ''type'' = Some (JStr ''register''))"
proof (cases "\<exists>kvs. m = Some (JObj kvs) \<and> map_of kvs ''type'' = Some (JStr ''register'')")
  case False
  have "m = None \<or> (\<exists>d. m = Some d \<and> get_prop d ''type'' \<noteq> Inr (Some (JStr ''register'')))"
  proof (cases m)
    case (Some d)
    then show ?thesis using False by (cases d) auto
  qed simp
  then show ?thesis by (simp add: first_frame_violation)
qed simp

subsection \<open>What holds in every state the relay reaches\<close>

lemma wf_init: "wf init"
  by (simp add: wf_def init_def)

lemma wf_on_connection: "wf w \<Longrightarrow> wf (on_connection w)"
  by (auto simp: wf_def on_connection_def Let_def)

lemma on_message_frame:
  "on_message w cid un m = Inr w' \<Longrightarrow> \<exists>xs. w' = w\<lparr> sent := sent w @ xs \<rparr>"
  by (auto simp: on_message_def ws_send_def split: option.splits sum.splits if_splits intro: exI[of _ "[]"])

lemma wf_sent: "wf (w\<lparr> sent := x \<rparr>) = wf w"
  by (simp add: wf_def)

lemma wf_uncaught: "wf (w\<lparr> uncaught := x \<rparr>) = wf w"
  by (simp add: wf_def)

lemma wf_listeners: "wf (w\<lparr> listeners := x \<rparr>) = wf w"
  by (simp add: wf_def)

lemma wf_readyState: "wf (w\<lparr> readyState := x \<rparr>) = wf w"
  by (simp add: wf_def)

lemma wf_on_message: "wf w \<Longrightarrow> on_message w cid un m = Inr w' \<Longrightarrow> wf w'"
  by (auto dest!: on_message_frame simp: wf_sent)

lemma wf_map_set:
  assumes "wf w" "s < nsocks w"
  shows "wf (w\<lparr> clients := map_set (clients w) (s + 1) \<lparr> ws = s, username = un, clientId = s + 1 \<rparr> \<rparr>)"
proof -
  have "distinct (map fst (map_set (clients w) (s + 1) \<lparr> ws = s, username = un, clientId = s + 1 \<rparr>))"
    using assms by (simp add: keys_map_set wf_def)
  moreover have "\<forall>e \<in> set (map_set (clients w) (s + 1) \<lparr> ws = s, username = un, clientId = s + 1 \<rparr>).
      fst e = ws (snd e) + 1 \<and> ws (snd e) < nsocks w \<and> clientId (snd e) = fst e"
    using assms set_map_set[of "clients w" "s + 1" "\<lparr> ws = s, username = un, clientId = s + 1 \<rparr>"]
    by (auto simp: wf_def)
  ultimately show ?thesis using assms by (simp add: wf_def)
qed

lemma wf_conn: "wf w \<Longrightarrow> conn w s = Some cid \<Longrightarrow> cid = s + 1 \<and> s < nsocks w"
  by (auto simp: wf_def split: if_splits)

lemma wf_once_message:
  assumes "wf w" "conn w s = Some cid"
  shows "wf (once_message w s cid m)"
proof -
  have s: "s < nsocks w" "cid = s + 1"
    using wf_conn[OF assms] by auto
  consider "once_message w s cid m = ws_close w s"
    | kvs where "m = Some (JObj kvs)" "map_of kvs ''type'' = Some (JStr ''register'')"
    using once_message_cases[of w s cid m] by blast
  then show ?thesis
  proof cases
    case 1
    then show ?thesis using assms(1) by (simp add: ws_close_def wf_readyState)
  next
    case 2
    have "wf (w\<lparr> clients := map_set (clients w) cid \<lparr> ws = s, username = un, clientId = cid \<rparr> \<rparr>)" for un
      unfolding s(2) by (rule wf_map_set[OF assms(1) s(1)])
    then show ?thesis
      unfolding 2(1) once_message_register[OF 2(2)] Let_def
      by (simp add: wf_def split: sum.split)
  qed
qed

lemma wf_filter: "wf w \<Longrightarrow> wf (w\<lparr> clients := filter P (clients w) \<rparr>)"
  by (simp add: wf_def distinct_map_filter)

lemma on_close_frame:
  "on_close w cid = Inr w' \<Longrightarrow>
   \<exists>xs. w' = w\<lparr> sent := sent w @ xs \<rparr> \<or>
        w' = w\<lparr> clients := filter (\<lambda>e. fst e \<noteq> cid) (clients w), sent := sent w @ xs \<rparr>"
  by (auto simp: on_close_def notify_disconnected_eq map_delete_filter Let_def
      split: option.splits sum.splits intro: exI[of _ "[]"])

lemma wf_on_close:
  assumes "wf w" "on_close w cid = Inr w'"
  shows "wf w'"
proof -
  from on_close_frame[OF assms(2)] obtain xs where
    "w' = w\<lparr> sent := sent w @ xs \<rparr> \<or>
     w' = w\<lparr> clients := filter (\<lambda>e. fst e \<noteq> cid) (clients w), sent := sent w @ xs \<rparr>" ..
  then show ?thesis
    using assms(1) wf_filter[OF assms(1), of "\<lambda>e. fst e \<noteq> cid"] by (auto simp: wf_sent)
qed

lemma wf_step:
  assumes "wf w"
  shows "wf (step w ev)"
proof (cases ev)
  case Connection
  then show ?thesis using assms by (simp add: step_def wf_on_connection)
next
  case (Message s m)
  have "wf (once_message (w\<lparr> listeners := (listeners w)(s := NoListener) \<rparr>) s cid m)"
    if "conn w s = Some cid" for cid
    using assms that by (intro wf_once_message) (simp_all add: wf_listeners)
  then show ?thesis
    using assms Message
    by (auto simp: step_def wf_uncaught elim: wf_on_message
        split: listener.splits option.splits sum.splits)
next
  case (Close s)
  let ?w1 = "w\<lparr> readyState := (readyState w)(s := CLOSED) \<rparr>"
  have w1: "wf ?w1" using assms by (simp add: wf_readyState)
  show ?thesis
    using assms Close w1 wf_on_close[OF w1]
    by (auto simp: step_def Let_def wf_uncaught split: option.splits sum.splits)
qed

lemma wf_run: "wf w \<Longrightarrow> wf (run w evs)"
  by (induction evs arbitrary: w) (auto simp: wf_step)

lemma wf_reachable: "wf (run init evs)"
  by (simp add: wf_run wf_init)

lemma wf_no_falsy_key:
  assumes "wf w" "\<not> truthy T"
  shows "clients_get (clients w) T = None"
proof (cases T)
  case (JNum n)
  with assms(2) have "n = 0" by simp
  moreover have "map_of (clients w) 0 = None"
    using assms(1) by (force simp: wf_def map_of_eq_None_iff)
  ultimately show ?thesis using JNum by (simp add: map_get_map_of)
qed simp_all

lemma issued_wf: "wf w \<Longrightarrow> issued w = map Suc [0..<nsocks w]"
  by (auto simp: issued_def wf_def List.map_filter_def
      intro!: map_cong filter_True[THEN trans, of _ _ "[0..<nsocks w]", OF _ refl])

lemma registered_issued: "wf w \<Longrightarrow> set (registered w) \<subseteq> set (issued w)"
  by (force simp: issued_wf registered_def wf_def)

text \<open>
  The lookup of the router finds the entry whose key is the number \<open>T\<close>, and there is
  at most one.
\<close>

lemma receivers_clients_get:
  assumes "wf w"
  shows "receivers w T =
           (case clients_get (clients w) T of
              None \<Rightarrow> []
            | Some c \<Rightarrow> if readyState w (ws c) = OPEN then [(ws c + 1, c)] else [])"
proof -
  have d: "distinct (map fst (clients w))" using assms by (simp add: wf_def)
  have no: "receivers w T = []" if "\<And>k. T \<noteq> JNum (int k)"
    using that by (auto simp: receivers_def filter_empty_conv)
  show ?thesis
  proof (cases T)
    case (JNum n)
    show ?thesis
    proof (cases "0 \<le> n")
      case True
      have "receivers w T = filter (\<lambda>e. readyState w (ws (snd e)) = OPEN) (filter (\<lambda>e. fst e = nat n) (clients w))"
        using True JNum by (auto simp: receivers_def intro!: filter_cong)
      also have "\<dots> = (case map_of (clients w) (nat n) of
                         None \<Rightarrow> []
                       | Some c \<Rightarrow> if readyState w (ws c) = OPEN then [(nat n, c)] else [])"
        by (simp add: filter_key_distinct[OF d] split: option.split)
      also have "\<dots> = (case map_of (clients w) (nat n) of
                         None \<Rightarrow> []
                       | Some c \<Rightarrow> if readyState w (ws c) = OPEN then [(ws c + 1, c)] else [])"
        using assms by (auto simp: wf_def split: option.split dest!: map_of_SomeD)
      finally show ?thesis using True JNum by (simp add: map_get_map_of)
    next
      case False
      have "receivers w T = []" by (rule no) (use False JNum in auto)
      then show ?thesis using False JNum by simp
    qed
  qed (simp_all add: receivers_def filter_empty_conv)
qed

lemma attached_less:
  assumes "attached w" "set (clients w') \<subseteq> set (clients w)" "listeners w' = listeners w"
      and "\<And>s. readyState w' s = OPEN \<Longrightarrow> readyState w s = OPEN"
  shows "attached w'"
  unfolding attached_def
proof
  fix e assume "e \<in> set (clients w')"
  then have "e \<in> set (clients w)" using assms(2) by auto
  then have "listeners w (ws (snd e)) \<noteq> Once \<and>
        (readyState w (ws (snd e)) = OPEN \<longrightarrow> listeners w (ws (snd e)) = On (username (snd e)))"
    using assms(1) by (simp add: attached_def)
  then show "listeners w' (ws (snd e)) \<noteq> Once \<and>
        (readyState w' (ws (snd e)) = OPEN \<longrightarrow> listeners w' (ws (snd e)) = On (username (snd e)))"
    using assms(3) assms(4)[of "ws (snd e)"] by auto
qed

lemma attached_step:
  assumes a: "attached w" and wf: "wf w"
  shows "attached (step w ev)"
proof (cases "uncaught w = None")
  case False
  then show ?thesis using a by (simp add: step_def)
next
  case live: True
  show ?thesis
  proof (cases ev)
    case Connection
    have "ws (snd e) \<noteq> nsocks w" if "e \<in> set (clients w)" for e
      using wf that by (auto simp: wf_def)
    then show ?thesis
      using a Connection live by (auto simp: step_def on_connection_def attached_def Let_def)
  next
    case (Close s)
    let ?w1 = "w\<lparr> readyState := (readyState w)(s := CLOSED) \<rparr>"
    have a1: "attached ?w1" by (rule attached_less[OF a]) (auto split: if_splits)
    have "attached w'" if "on_close ?w1 cid = Inr w'" for cid w'
    proof -
      from on_close_frame[OF that] obtain xs where
        "w' = ?w1\<lparr> sent := sent ?w1 @ xs \<rparr> \<or>
         w' = ?w1\<lparr> clients := filter (\<lambda>e. fst e \<noteq> cid) (clients ?w1), sent := sent ?w1 @ xs \<rparr>" ..
      then show ?thesis
        by (elim disjE) (rule attached_less[OF a1]; simp)+
    qed
    moreover have "attached (?w1\<lparr> uncaught := x \<rparr>)" for x
      by (rule attached_less[OF a1]) simp_all
    ultimately show ?thesis
      using a Close live by (auto simp: step_def Let_def split: option.splits sum.splits)
  next
    case (Message s m)
    show ?thesis
    proof (cases "readyState w s = CLOSED")
      case True
      then show ?thesis using a Message live by (simp add: step_def)
    next
      case alive: False
      show ?thesis
      proof (cases "listeners w s")
        case NoListener
        then show ?thesis using a Message live alive by (simp add: step_def)
      next
        case (On un)
        have "attached w'" if "on_message w cid un m = Inr w'" for cid w'
          using on_message_frame[OF that] by (auto intro!: attached_less[OF a])
        moreover have "attached (w\<lparr> uncaught := x \<rparr>)" for x
          by (rule attached_less[OF a]) simp_all
        ultimately show ?thesis
          using a Message live alive On by (auto simp: step_def split: option.splits sum.splits)
      next
        case Once
        have none: "ws (snd e) \<noteq> s" if "e \<in> set (clients w)" for e
          using a that Once by (auto simp: attached_def)
        let ?w0 = "w\<lparr> listeners := (listeners w)(s := NoListener) \<rparr>"
        have a0: "attached ?w0" using a none by (auto simp: attached_def)
        have "attached (once_message ?w0 s cid m)" for cid
        proof -
          consider "once_message ?w0 s cid m = ws_close ?w0 s"
            | kvs where "m = Some (JObj kvs)" "map_of kvs ''type'' = Some (JStr ''register'')"
            using once_message_cases[of ?w0 s cid m] by blast
          then show ?thesis
          proof cases
            case 1
            then show ?thesis using a0 none by (auto simp: ws_close_def attached_def)
          next
            case 2
            have in_set: "e \<in> set (clients w) \<or> e = (cid, v)" if "e \<in> set (map_set (clients w) cid v)" for e v
              using that set_map_set[of "clients w" cid v] by auto
            show ?thesis
              unfolding 2(1) once_message_register[OF 2(2)] Let_def
              using a none alive
              by (auto simp: attached_def split: sum.split dest!: in_set)
          qed
        qed
        then show ?thesis
          using a Message live alive Once by (auto simp: step_def split: option.splits)
      qed
    qed
  qed
qed

lemma attached_reachable: "attached (run init evs)"
proof -
  have "attached (run w evs) \<and> wf (run w evs)" if "attached w" "wf w" for w
    using that by (induction evs arbitrary: w) (auto simp: attached_step wf_step)
  moreover have "attached init" by (simp add: attached_def init_def)
  ultimately show ?thesis using wf_init by blast
qed

subsection \<open>Routing\<close>

text \<open>
  Claim C6. In every state the relay reaches, while the process runs: when a registered
  peer whose socket is open sends an envelope with \<^verbatim>\<open>targetPeerId\<close> \<open>T\<close>,
  the relay writes the envelope, stamped with the id and the username of the sender, to the
  socket of every registered peer whose id is \<open>T\<close> and whose socket is open, and there is
  at most one such peer; it writes nothing else, raises no error, and nothing else in its
  state changes. So the envelope reaches the socket of \<open>T\<close> exactly when \<open>T\<close> is
  registered and open, and otherwise no socket at all.
\<close>

theorem targeted_delivery:
  assumes "uncaught (run init evs) = None"
      and "(cid, c) \<in> set (clients (run init evs))"
      and "readyState (run init evs) (ws c) = OPEN"
      and "map_of kvs ''targetPeerId'' = Some T"
  shows "step (run init evs) (Message (ws c) (Some (JObj kvs))) =
           (run init evs)\<lparr> sent := sent (run init evs) @
              map (\<lambda>e. (ws (snd e), JObj (put_opt (put kvs ''senderId'' (JNum (int cid))) ''username'' (username c))))
                  (receivers (run init evs) T) \<rparr> \<and>
         length (receivers (run init evs) T) \<le> 1"
proof -
  let ?w = "run init evs"
  have wf: "wf ?w" by (rule wf_reachable)
  have on: "listeners ?w (ws c) = On (username c)"
    using attached_reachable[of evs] assms(2,3) by (force simp: attached_def)
  have cn: "conn ?w (ws c) = Some cid"
    using wf assms(2) by (force simp: wf_def)
  have t: "map_of (put_opt (put kvs ''senderId'' (JNum (int cid))) ''username'' (username c)) ''targetPeerId'' = Some T"
    using assms(4) by (simp add: map_of_put_opt map_of_put_other)
  have falsy: "clients_get (clients ?w) T = None" if "\<not> truthy T"
    using wf that by (rule wf_no_falsy_key)
  have om: "on_message ?w cid (username c) (Some (JObj kvs)) =
              Inr (?w\<lparr> sent := sent ?w @
                 map (\<lambda>e. (ws (snd e), JObj (put_opt (put kvs ''senderId'' (JNum (int cid))) ''username'' (username c))))
                     (receivers ?w T) \<rparr>)"
    using t falsy
    by (simp add: on_message_def receivers_clients_get[OF wf] ws_send_def split: option.split)
  have "step ?w (Message (ws c) (Some (JObj kvs))) =
          ?w\<lparr> sent := sent ?w @
              map (\<lambda>e. (ws (snd e), JObj (put_opt (put kvs ''senderId'' (JNum (int cid))) ''username'' (username c))))
                  (receivers ?w T) \<rparr>"
    using assms(1,3) on cn om by (simp add: step_def)
  moreover have "length (receivers ?w T) \<le> 1"
    by (simp add: receivers_clients_get[OF wf] split: option.split)
  ultimately show ?thesis by simp
qed

theorem targeted_delivery_witness:
  "uncaught (run init two_peers) = None \<and>
   (1, \<lparr> ws = 0, username = Some (JStr ''alice''), clientId = 1 \<rparr>) \<in> set (clients (run init two_peers)) \<and>
   readyState (run init two_peers) 0 = OPEN \<and>
   map_of [(''type'', JStr ''offer''), (''targetPeerId'', JNum 2)] ''targetPeerId'' = Some (JNum 2) \<and>
   step (run init two_peers) (Message 0 (Some (JObj [(''type'', JStr ''offer''), (''targetPeerId'', JNum 2)]))) =
     (run init two_peers)\<lparr> sent := sent (run init two_peers) @
        [(1, JObj [(''type'', JStr ''offer''), (''targetPeerId'', JNum 2),
                   (''senderId'', JNum 1), (''username'', JStr ''alice'')])] \<rparr>"
  using targeted_delivery[of two_peers 1 "\<lparr> ws = 0, username = Some (JStr ''alice''), clientId = 1 \<rparr>"
          "[(''type'', JStr ''offer''), (''targetPeerId'', JNum 2)]" "JNum 2"]
  by (simp add: receivers_def relay_defs notify_new_peer_eq Let_def)

text \<open>
  Claim C1, as the spec states it, fails: with peers 1 and 2 registered and both sockets
  open, peer 1 sends an envelope without \<^verbatim>\<open>targetPeerId\<close>, and the relay sends
  nothing to peer 2; its state is what it was.
\<close>

theorem untargeted_not_broadcast:
  "map_get (clients (run init two_peers)) 2 = Some \<lparr> ws = 1, username = Some (JStr ''bob''), clientId = 2 \<rparr> \<and>
   readyState (run init two_peers) 1 = OPEN \<and>
   listeners (run init two_peers) 0 = On (Some (JStr ''alice'')) \<and>
   map_of [(''type'', JStr ''chat''), (''message'', JStr ''hi'')] ''targetPeerId'' = None \<and>
   step (run init two_peers) (Message 0 (Some (JObj [(''type'', JStr ''chat''), (''message'', JStr ''hi'')])))
     = run init two_peers"
  by (simp add: relay_defs notify_new_peer_eq Let_def)

text \<open>
  Claim C1, amended. The router has one branch, for a truthy \<^verbatim>\<open>targetPeerId\<close>:
  an envelope of a registered peer that carries no \<^verbatim>\<open>targetPeerId\<close>, or a falsy
  one, is stamped and dropped. The relay sends it to no peer, raises no error, and its state
  is unchanged.
\<close>

theorem untargeted_dropped:
  assumes "\<not> truthy_opt (map_of kvs ''targetPeerId'')"
  shows "on_message w cid un (Some (JObj kvs)) = Inr w"
  using assms by (auto simp: on_message_def map_of_put_opt map_of_put_other split: option.splits)

theorem untargeted_dropped_witness:
  "\<not> truthy_opt (map_of [(''type'', JStr ''chat'')] ''targetPeerId'') \<and>
   on_message (run init two_peers) 1 (Some (JStr ''alice'')) (Some (JObj [(''type'', JStr ''chat'')]))
     = Inr (run init two_peers)"
  using untargeted_dropped[of "[(''type'', JStr ''chat'')]" "run init two_peers" 1 "Some (JStr ''alice'')"]
  by simp

subsection \<open>Protocol violations\<close>

text \<open>
  Claim C2 at a frame after the registration: the listener of the later messages calls
  \<^verbatim>\<open>JSON.parse\<close> outside any \<^verbatim>\<open>try\<close>. A registered peer sends a frame that
  does not parse: the SyntaxError leaves the listener uncaught, and the socket is still
  open.
\<close>

theorem bad_json_after_registration:
  "uncaught (run init [Connection, Message 0 (Some (register_frame (JStr ''alice''))), Message 0 None])
     = Some SyntaxError \<and>
   readyState (run init [Connection, Message 0 (Some (register_frame (JStr ''alice''))), Message 0 None]) 0
     = OPEN"
  by (simp add: relay_defs notify_new_peer_eq Let_def)

subsection \<open>Registration\<close>

text \<open>
  Claim C3, as the spec states it, fails: the first peer registers, is stored under id 1,
  and the relay has sent nothing at all, so no \<^verbatim>\<open>existing-peers\<close> envelope with an
  empty list.
\<close>

theorem first_peer_gets_nothing:
  "clients (run init [Connection, Message 0 (Some (register_frame (JStr ''alice'')))])
     = [(1, \<lparr> ws = 0, username = Some (JStr ''alice''), clientId = 1 \<rparr>)] \<and>
   sent (run init [Connection, Message 0 (Some (register_frame (JStr ''alice'')))]) = []"
  by (simp add: relay_defs notify_new_peer_eq Let_def)

text \<open>
  A username without a text: the peer is stored, the relay sends nothing and closes the
  socket; when the socket has closed, the listener of \<^verbatim>\<open>close\<close> builds its
  line for the console from the stored username, and its exception ends the process.
\<close>

lemma username_without_text:
  "clients (run init [Connection, Message 0 (Some (register_frame (JObj [(''toString'', JNum 1)])))])
     = [(1, \<lparr> ws = 0, username = Some (JObj [(''toString'', JNum 1)]), clientId = 1 \<rparr>)] \<and>
   sent (run init [Connection, Message 0 (Some (register_frame (JObj [(''toString'', JNum 1)])))]) = [] \<and>
   readyState (run init [Connection, Message 0 (Some (register_frame (JObj [(''toString'', JNum 1)])))]) 0
     = CLOSING \<and>
   listeners (run init [Connection, Message 0 (Some (register_frame (JObj [(''toString'', JNum 1)])))]) 0
     = NoListener \<and>
   uncaught (run init [Connection, Message 0 (Some (register_frame (JObj [(''toString'', JNum 1)]))), Close 0])
     = Some TypeError"
  by (simp add: relay_defs notify_new_peer_eq Let_def)

text \<open>
  Claim C3, amended. While the process runs, a register frame that is the first frame of an
  open socket stores the peer in \<^verbatim>\<open>clients\<close> under the id the socket took when it
  connected. When the username has a text (a string, a number, a boolean,
  \<^verbatim>\<open>null\<close>, no username at all, an object without a member
  \<^verbatim>\<open>toString\<close>, an array of such values), the relay then sends, in this order: to
  the new peer one \<^verbatim>\<open>existing-peers\<close> envelope that lists the id and username of
  every other entry of \<^verbatim>\<open>clients\<close>, when there is such an entry, and nothing
  when there is none; then one \<^verbatim>\<open>new-peer\<close> envelope to every other entry whose
  socket is open; and the socket stays open, with the listener of the later messages. When
  the username has no text, the line for the console throws after the entry was stored: the
  relay sends nothing, closes the socket and attaches no listener, and the entry stays in
  \<^verbatim>\<open>clients\<close>.
\<close>

theorem registration_sends:
  assumes "uncaught w = None"
      and "readyState w s = OPEN"
      and "listeners w s = Once"
      and "conn w s = Some cid"
      and "map_of kvs ''type'' = Some (JStr ''register'')"
  shows "clients (step w (Message s (Some (JObj kvs)))) =
           map_set (clients w) cid \<lparr> ws = s, username = map_of kvs ''username'', clientId = cid \<rparr> \<and>
         (case to_string_opt (map_of kvs ''username'') of
            Inr line \<Rightarrow>
              sent (step w (Message s (Some (JObj kvs)))) =
                sent w
                @ (if filter (\<lambda>e. fst e \<noteq> cid) (clients w) = [] then []
                   else [(s, existing_peers (map peer_entry (filter (\<lambda>e. fst e \<noteq> cid) (clients w))))])
                @ map (\<lambda>e. (ws (snd e), new_peer cid (map_of kvs ''username''))) (others_open w cid) \<and>
              readyState (step w (Message s (Some (JObj kvs)))) s = OPEN \<and>
              listeners (step w (Message s (Some (JObj kvs)))) s = On (map_of kvs ''username'')
          | Inl e \<Rightarrow>
              sent (step w (Message s (Some (JObj kvs)))) = sent w \<and>
              readyState (step w (Message s (Some (JObj kvs)))) s = CLOSING \<and>
              listeners (step w (Message s (Some (JObj kvs)))) s = NoListener)"
proof -
  have "step w (Message s (Some (JObj kvs))) =
          once_message (w\<lparr> listeners := (listeners w)(s := NoListener) \<rparr>) s cid (Some (JObj kvs))"
    using assms(1-4) by (simp add: step_def)
  then show ?thesis
    using assms(2)
    by (simp add: once_message_register[OF assms(5)] Let_def others_open_def split: sum.split)
qed

theorem registration_sends_witness:
  "uncaught (run init [Connection, Connection, Message 0 (Some (register_frame (JStr ''alice'')))]) = None \<and>
   readyState (run init [Connection, Connection, Message 0 (Some (register_frame (JStr ''alice'')))]) 1 = OPEN \<and>
   listeners (run init [Connection, Connection, Message 0 (Some (register_frame (JStr ''alice'')))]) 1 = Once \<and>
   conn (run init [Connection, Connection, Message 0 (Some (register_frame (JStr ''alice'')))]) 1 = Some 2 \<and>
   map_of [(''type'', JStr ''register''), (''username'', JStr ''bob'')] ''type'' = Some (JStr ''register'') \<and>
   clients (step (run init [Connection, Connection, Message 0 (Some (register_frame (JStr ''alice'')))])
              (Message 1 (Some (JObj [(''type'', JStr ''register''), (''username'', JStr ''bob'')])))) =
     [(1, \<lparr> ws = 0, username = Some (JStr ''alice''), clientId = 1 \<rparr>),
      (2, \<lparr> ws = 1, username = Some (JStr ''bob''), clientId = 2 \<rparr>)] \<and>
   sent (step (run init [Connection, Connection, Message 0 (Some (register_frame (JStr ''alice'')))])
           (Message 1 (Some (JObj [(''type'', JStr ''register''), (''username'', JStr ''bob'')])))) =
     [(1, JObj [(''type'', JStr ''existing-peers''),
                (''peers'', JArr [JObj [(''clientId'', JNum 1), (''username'', JStr ''alice'')]])]),
      (0, JObj [(''type'', JStr ''new-peer''), (''peerId'', JNum 2), (''username'', JStr ''bob'')])]"
  using registration_sends[of
       "run init [Connection, Connection, Message 0 (Some (register_frame (JStr ''alice'')))]" 1 2
       "[(''type'', JStr ''register''), (''username'', JStr ''bob'')]"]
  by (simp add: relay_defs notify_new_peer_eq Let_def others_open_def)

subsection \<open>Peer ids\<close>

text \<open>
  Claim C7. After any sequence of connections, frames and disconnections, the ids the relay
  has issued, in the order of the connections, are strictly increasing, and none was issued
  twice.
\<close>

theorem ids_strictly_increasing:
  "sorted_wrt (<) (issued (run init evs)) \<and> distinct (issued (run init evs))"
  by (simp add: issued_wf[OF wf_reachable] sorted_wrt_map distinct_map)

text \<open>
  Claim C10, as the spec states it, fails in its last part. Two sockets connect and take the
  ids 1 and 2; the second registers first. Both are registered, and
  \<^verbatim>\<open>clients\<close> holds the id 2 before the id 1: in the order in which the peers
  registered, which is the order of the registry, the ids are not increasing.
\<close>

theorem registered_ids_not_increasing:
  "registered (run init [Connection, Connection,
                         Message 1 (Some (register_frame (JStr ''bob''))),
                         Message 0 (Some (register_frame (JStr ''alice'')))]) = [2, 1] \<and>
   sent (run init [Connection, Connection,
                   Message 1 (Some (register_frame (JStr ''bob''))),
                   Message 0 (Some (register_frame (JStr ''alice'')))]) =
     [(0, existing_peers [JObj [(''clientId'', JNum 2), (''username'', JStr ''bob'')]]),
      (1, new_peer 1 (Some (JStr ''alice'')))]"
  by (simp add: relay_defs registered_def notify_new_peer_eq Let_def)

text \<open>
  Claim C10, amended. While the process runs, a connection takes the next id and increments
  \<^verbatim>\<open>nextClientId\<close> at once, before any frame: the new socket holds the id and
  waits for its first frame, and \<^verbatim>\<open>clients\<close> is as it was. In every state the
  relay reaches, a registered peer stands under the id its socket took when it connected, so
  no two registered peers have the same id, and of two registered peers the one that
  connected first has the smaller id, whichever registered first. The ids need not be
  consecutive: of three connections the second sends an \<^verbatim>\<open>offer\<close> as its first
  frame and never registers, and the registered ids are 1 and 3.
\<close>

theorem id_allocated_on_connection:
  "(uncaught w = None \<longrightarrow>
      conn (step w Connection) (nsocks w) = Some (nextClientId w) \<and>
      nextClientId (step w Connection) = nextClientId w + 1 \<and>
      clients (step w Connection) = clients w \<and>
      listeners (step w Connection) (nsocks w) = Once) \<and>
   (\<forall>e \<in> set (clients (run init evs)). conn (run init evs) (ws (snd e)) = Some (fst e)) \<and>
   (\<forall>e \<in> set (clients (run init evs)). \<forall>e' \<in> set (clients (run init evs)).
      (ws (snd e) < ws (snd e')) = (fst e < fst e')) \<and>
   distinct (registered (run init evs)) \<and>
   registered (run init [Connection, Connection, Connection,
                         Message 0 (Some (register_frame (JStr ''alice''))),
                         Message 1 (Some (JObj [(''type'', JStr ''offer'')])),
                         Message 2 (Some (register_frame (JStr ''carol'')))]) = [1, 3]"
proof -
  let ?r = "run init evs"
  have wf: "wf ?r" by (rule wf_reachable)
  have a: "uncaught w = None \<longrightarrow>
      conn (step w Connection) (nsocks w) = Some (nextClientId w) \<and>
      nextClientId (step w Connection) = nextClientId w + 1 \<and>
      clients (step w Connection) = clients w \<and>
      listeners (step w Connection) (nsocks w) = Once"
    by (simp add: step_def on_connection_def Let_def)
  have b: "\<forall>e \<in> set (clients ?r). conn ?r (ws (snd e)) = Some (fst e)"
    using wf by (auto simp: wf_def)
  have c: "\<forall>e \<in> set (clients ?r). \<forall>e' \<in> set (clients ?r). (ws (snd e) < ws (snd e')) = (fst e < fst e')"
    using wf by (auto simp: wf_def)
  have d: "distinct (registered ?r)"
    using wf by (simp add: wf_def registered_def)
  have e: "registered (run init [Connection, Connection, Connection,
                         Message 0 (Some (register_frame (JStr ''alice''))),
                         Message 1 (Some (JObj [(''type'', JStr ''offer'')])),
                         Message 2 (Some (register_frame (JStr ''carol'')))]) = [1, 3]"
    by (simp add: relay_defs registered_def notify_new_peer_eq Let_def)
  show ?thesis
    using a b c d e by blast
qed

theorem id_allocated_on_connection_witness:
  "uncaught init = None \<and>
   conn (step init Connection) 0 = Some 1 \<and>
   nextClientId (step init Connection) = 2 \<and>
   clients (step init Connection) = [] \<and>
   listeners (step init Connection) 0 = Once \<and>
   clients (run init [Connection, Connection,
                      Message 1 (Some (register_frame (JStr ''bob''))),
                      Message 0 (Some (register_frame (JStr ''alice'')))]) =
     [(2, \<lparr> ws = 1, username = Some (JStr ''bob''), clientId = 2 \<rparr>),
      (1, \<lparr> ws = 0, username = Some (JStr ''alice''), clientId = 1 \<rparr>)] \<and>
   conn (run init [Connection, Connection,
                   Message 1 (Some (register_frame (JStr ''bob''))),
                   Message 0 (Some (register_frame (JStr ''alice'')))]) 1 = Some 2 \<and>
   conn (run init [Connection, Connection,
                   Message 1 (Some (register_frame (JStr ''bob''))),
                   Message 0 (Some (register_frame (JStr ''alice'')))]) 0 = Some 1"
  using id_allocated_on_connection[of init "[Connection, Connection,
                      Message 1 (Some (register_frame (JStr ''bob''))),
                      Message 0 (Some (register_frame (JStr ''alice'')))]"]
  by (simp add: relay_defs notify_new_peer_eq Let_def)

section \<open>Properties of the client\<close>

lemmas client_defs = ws_onmessage_def switch_type_def handleOffer_def handleAnswer_def
  handleIceCandidate_def handlePeerDisconnection_def createPeerConnection_def setupDataChannel_def
  log_def init_chat_def sendMessage_def appendMessage_def texts_def simple_rtc_def
  show_int_def show_nat.simps

lemma filter_absent: "map_get m k = None \<Longrightarrow> filter (\<lambda>e. fst e \<noteq> k) m = m"
  by (induction m) (auto split: if_splits)

lemma map_get_filter_same: "map_get (filter (\<lambda>e. fst e \<noteq> k) m) k = None"
  by (induction m) auto

lemma get_prop_field: "get_prop d k = (if d = JNull then Inl TypeError else Inr (field d k))"
  by (cases d) auto

lemma value_of_key_of: "value_of (key_of n p v) = v"
  by (induction n p v rule: key_of.induct) auto

text \<open>
  On an object, \<^verbatim>\<open>ws.onmessage\<close> counts and logs the frame, sets
  \<^verbatim>\<open>myPeerId\<close> when it is falsy and the frame has a truthy
  \<^verbatim>\<open>senderId\<close>, and goes into the \<^verbatim>\<open>switch\<close>.
\<close>

lemma ws_onmessage_obj:
  "ws_onmessage L st (Some (JObj kvs)) =
     switch_type L (st\<lparr> frames := frames st + 1,
                        logs := logs st @ [(''debug'', ''Received message: '' @ stringify L (JObj kvs))],
                        myPeerId := learn (myPeerId st) (map_of kvs ''senderId'') \<rparr>) (frames st) (JObj kvs)"
  by (simp add: ws_onmessage_def learn_def log_def Let_def split: option.splits)

lemma awaiting_answer_fields:
  "peerConnections awaiting_answer = [(Prim (Some (JNum 1)), 0)]"
  "dataChannels awaiting_answer = [(Prim (Some (JNum 1)), 0)]"
  "peerUsernames awaiting_answer = [(Prim (Some (JNum 1)), Some (JStr ''alice''))]"
  "lib (conns awaiting_answer 0) =
     \<lparr> localDesc = Some (JObj [(''type'', JStr ''offer''), (''sdp'', JStr ''v=0'')]),
       remoteDesc = None, cands = [], shut = False \<rparr>"
  "closed (conns awaiting_answer 0) = False"
  "frames awaiting_answer = 1"
  "myPeerId awaiting_answer = JNull"
  by (simp_all add: awaiting_answer_def client_defs early_candidate_def Let_def)

lemma simple_rtc_sel:
  "addIceCandidate simple_rtc p c =
     (if remoteDesc p = None then Inl ''The remote description was null''
      else Inr (p\<lparr> cands := cands p @ [c] \<rparr>))"
  "stringify simple_rtc v = ''json''"
  by (simp_all add: simple_rtc_def)

subsection \<open>Departure of a peer\<close>

lemma handlePeerDisconnection_maps:
  "peerConnections (snd (handlePeerDisconnection L st P un)) = filter (\<lambda>e. fst e \<noteq> P) (peerConnections st) \<and>
   dataChannels (snd (handlePeerDisconnection L st P un)) = filter (\<lambda>e. fst e \<noteq> P) (dataChannels st) \<and>
   peerUsernames (snd (handlePeerDisconnection L st P un)) = filter (\<lambda>e. fst e \<noteq> P) (peerUsernames st) \<and>
   conns (snd (handlePeerDisconnection L st P un)) =
     (case map_get (peerConnections st) P of
        None \<Rightarrow> conns st
      | Some h \<Rightarrow> (conns st)(h := (conns st h)\<lparr> lib := closeConnection L (lib (conns st h)), closed := True \<rparr>)) \<and>
   fst (handlePeerDisconnection L st P un) =
     (case texts un (value_of P) of Inl e \<Rightarrow> Inl e | Inr x \<Rightarrow> Inr ())"
  by (simp add: handlePeerDisconnection_def log_def Let_def map_delete_filter filter_absent
      split: option.splits sum.splits prod.splits)

text \<open>
  An object is the peer of its own frame only: after \<^verbatim>\<open>new-peer\<close> with the id
  \<^verbatim>\<open>{"x":1}\<close>, a \<^verbatim>\<open>peer-disconnected\<close> frame with an id of the
  same content names another object, and the client keeps the connection it made and does
  not close it.
\<close>

lemma object_id_kept:
  "peerConnections (receive simple_rtc (init_chat simple_rtc (JStr ''bob'')) object_id_frames)
     = [(Ref 0 AtPeerId (JObj [(''x'', JNum 1)]), 0)] \<and>
   peerUsernames (receive simple_rtc (init_chat simple_rtc (JStr ''bob'')) object_id_frames)
     = [(Ref 0 AtPeerId (JObj [(''x'', JNum 1)]), Some (JStr ''eve''))] \<and>
   \<not> closed (conns (receive simple_rtc (init_chat simple_rtc (JStr ''bob'')) object_id_frames) 0)"
  by (simp add: client_defs object_id_frames_def Let_def)

text \<open>
  Claim C8. On a \<^verbatim>\<open>peer-disconnected\<close> envelope whose \<^verbatim>\<open>peerId\<close> is
  \<open>P\<close>, as the Maps compare it (a number, as the relay writes it, is compared by value):
  the connection that \<^verbatim>\<open>peerConnections\<close> holds for \<open>P\<close>, if any, has
  \<^verbatim>\<open>close()\<close> called on it and no other connection is touched; the three Maps lose
  their entry for \<open>P\<close> and keep every other entry, in order and unchanged. The handler
  returns without error when the username and the id have a text for the log line, and
  throws a TypeError after the removal when one of them has none.
\<close>

theorem peer_disconnected_removes:
  assumes "map_of kvs ''type'' = Some (JStr ''peer-disconnected'')"
      and "key_of (frames st) AtPeerId (map_of kvs ''peerId'') = P"
  shows "peerConnections (snd (ws_onmessage L st (Some (JObj kvs))))
           = filter (\<lambda>e. fst e \<noteq> P) (peerConnections st) \<and>
         dataChannels (snd (ws_onmessage L st (Some (JObj kvs))))
           = filter (\<lambda>e. fst e \<noteq> P) (dataChannels st) \<and>
         peerUsernames (snd (ws_onmessage L st (Some (JObj kvs))))
           = filter (\<lambda>e. fst e \<noteq> P) (peerUsernames st) \<and>
         map_get (peerConnections (snd (ws_onmessage L st (Some (JObj kvs))))) P = None \<and>
         map_get (dataChannels (snd (ws_onmessage L st (Some (JObj kvs))))) P = None \<and>
         map_get (peerUsernames (snd (ws_onmessage L st (Some (JObj kvs))))) P = None \<and>
         conns (snd (ws_onmessage L st (Some (JObj kvs)))) =
           (case map_get (peerConnections st) P of
              None \<Rightarrow> conns st
            | Some h \<Rightarrow> (conns st)(h := (conns st h)\<lparr> lib := closeConnection L (lib (conns st h)),
                                                        closed := True \<rparr>)) \<and>
         fst (ws_onmessage L st (Some (JObj kvs))) =
           (case texts (map_of kvs ''username'') (map_of kvs ''peerId'') of
              Inl e \<Rightarrow> Inl e
            | Inr x \<Rightarrow> Inr ())"
proof -
  let ?st1 = "st\<lparr> frames := frames st + 1,
                    logs := logs st @ [(''debug'', ''Received message: '' @ stringify L (JObj kvs))],
                    myPeerId := learn (myPeerId st) (map_of kvs ''senderId'') \<rparr>"
  have v: "value_of P = map_of kvs ''peerId''"
    using assms(2) value_of_key_of by metis
  have "ws_onmessage L st (Some (JObj kvs)) = handlePeerDisconnection L ?st1 P (map_of kvs ''username'')"
    using assms by (simp add: ws_onmessage_obj switch_type_def)
  then show ?thesis
    using handlePeerDisconnection_maps[of L ?st1 P "map_of kvs ''username''"] v
    by (simp add: map_get_filter_same split: option.split)
qed

theorem peer_disconnected_removes_witness:
  "map_of [(''type'', JStr ''peer-disconnected''), (''peerId'', JNum 1), (''username'', JStr ''alice'')] ''type''
     = Some (JStr ''peer-disconnected'') \<and>
   key_of (frames awaiting_answer) AtPeerId
     (map_of [(''type'', JStr ''peer-disconnected''), (''peerId'', JNum 1), (''username'', JStr ''alice'')] ''peerId'')
     = Prim (Some (JNum 1)) \<and>
   peerConnections (snd (ws_onmessage simple_rtc awaiting_answer
      (Some (JObj [(''type'', JStr ''peer-disconnected''), (''peerId'', JNum 1), (''username'', JStr ''alice'')])))) = [] \<and>
   dataChannels (snd (ws_onmessage simple_rtc awaiting_answer
      (Some (JObj [(''type'', JStr ''peer-disconnected''), (''peerId'', JNum 1), (''username'', JStr ''alice'')])))) = [] \<and>
   peerUsernames (snd (ws_onmessage simple_rtc awaiting_answer
      (Some (JObj [(''type'', JStr ''peer-disconnected''), (''peerId'', JNum 1), (''username'', JStr ''alice'')])))) = [] \<and>
   closed (conns (snd (ws_onmessage simple_rtc awaiting_answer
      (Some (JObj [(''type'', JStr ''peer-disconnected''), (''peerId'', JNum 1), (''username'', JStr ''alice'')])))) 0) \<and>
   fst (ws_onmessage simple_rtc awaiting_answer
      (Some (JObj [(''type'', JStr ''peer-disconnected''), (''peerId'', JNum 1), (''username'', JStr ''alice'')])))
     = Inr ()"
  using peer_disconnected_removes[of
          "[(''type'', JStr ''peer-disconnected''), (''peerId'', JNum 1), (''username'', JStr ''alice'')]"
          awaiting_answer "Prim (Some (JNum 1))" simple_rtc]
  by (simp add: awaiting_answer_fields texts_def show_int_def show_nat.simps)

subsection \<open>Errors of the library\<close>

text \<open>
  \<^verbatim>\<open>handleAnswer\<close> and \<^verbatim>\<open>handleIceCandidate\<close> never reject, and an
  answer the library rejects leaves one entry at level \<^verbatim>\<open>error\<close> in the log and
  the state as it was.
\<close>

lemma handleAnswer_resolves: "fst (handleAnswer L st n (JObj kvs)) = Inr ()"
  by (simp add: handleAnswer_def split: option.splits sum.splits)

lemma handleIceCandidate_resolves: "fst (handleIceCandidate L st n (JObj kvs)) = Inr ()"
  by (simp add: handleIceCandidate_def split: option.splits sum.splits)

lemma handleAnswer_logs_error:
  assumes "map_get (peerConnections st) (key_of n AtSenderId (map_of kvs ''senderId'')) = Some h"
      and "setRemoteDescription L (lib (conns st h)) (map_of kvs ''answer'') = Inl msg"
  shows "handleAnswer L st n (JObj kvs) =
           (Inr (), st\<lparr> logs := logs st @ [(''error'', ''Error setting remote description: '' @ msg)] \<rparr>)"
  using assms by (simp add: handleAnswer_def log_def)

text \<open>
  \<^verbatim>\<open>handleOffer\<close> has no \<^verbatim>\<open>try\<close>: where the library rejects every
  remote description, it rejects with that error and logs nothing.
\<close>

lemma handleOffer_rejects:
  assumes "\<And>p d. setRemoteDescription L p d = Inl msg"
  shows "fst (handleOffer L st n (JObj kvs)) = Inl (Error msg) \<and>
         logs (snd (handleOffer L st n (JObj kvs))) = logs st"
  using assms
  by (simp add: handleOffer_def createPeerConnection_def Let_def split: option.splits)

text \<open>
  Claim C4 at a received offer: a client that has just started receives, from peer 2, an
  offer whose description the library rejects. The error leaves \<^verbatim>\<open>ws.onmessage\<close>
  as the rejection of its promise, caught nowhere, and the log has the
  \<^verbatim>\<open>debug\<close> line of the frame and no entry at level \<^verbatim>\<open>error\<close>.
\<close>

theorem offer_error_escapes:
  "fst (ws_onmessage simple_rtc (init_chat simple_rtc (JStr ''alice'')) (Some bad_offer))
     = Inl (Error ''Failed to parse SessionDescription'') \<and>
   logs (snd (ws_onmessage simple_rtc (init_chat simple_rtc (JStr ''alice'')) (Some bad_offer)))
     = [(''debug'', ''Received message: json'')]"
  by (simp add: client_defs bad_offer_def Let_def)

subsection \<open>The log is only written\<close>

text \<open>
  No handler reads the log: from two states that differ in the log alone, a frame leads to
  the same result and to two states that differ in the log alone.
\<close>

lemma erase_iff:
  "erase_logs a = erase_logs b \<longleftrightarrow>
     peerConnections a = peerConnections b \<and> dataChannels a = dataChannels b \<and>
     peerUsernames a = peerUsernames b \<and> myPeerId a = myPeerId b \<and> cfg_username a = cfg_username b \<and>
     conns a = conns b \<and> nextConn a = nextConn b \<and> channelState a = channelState b \<and>
     channelPeer a = channelPeer b \<and> nextChannel a = nextChannel b \<and> frames a = frames b \<and>
     wire a = wire b \<and> chat_out a = chat_out b \<and> shown a = shown b \<and> chat.more a = chat.more b"
  by (cases a, cases b) (auto simp: erase_logs_def)

lemma createPeerConnection_erase:
  assumes "erase_logs a = erase_logs b"
  shows "fst (createPeerConnection L a p i) = fst (createPeerConnection L b p i) \<and>
         erase_logs (snd (createPeerConnection L a p i)) = erase_logs (snd (createPeerConnection L b p i))"
  using assms unfolding erase_iff
  by (simp add: createPeerConnection_def setupDataChannel_def Let_def split: sum.split)

lemma erase_peerUsernames:
  "erase_logs a = erase_logs b \<Longrightarrow>
   erase_logs (a\<lparr> peerUsernames := map_set (peerUsernames a) k v \<rparr>)
     = erase_logs (b\<lparr> peerUsernames := map_set (peerUsernames b) k v \<rparr>)"
  unfolding erase_iff by simp

lemma loop_erase:
  assumes "erase_logs a = erase_logs b"
  shows "fst (existing_peers_loop L a n i ps) = fst (existing_peers_loop L b n i ps) \<and>
         erase_logs (snd (existing_peers_loop L a n i ps)) = erase_logs (snd (existing_peers_loop L b n i ps))"
  using assms
proof (induction ps arbitrary: a b i)
  case (Cons p ps)
  show ?case
  proof (cases "get_prop p ''clientId''")
    case (Inl e)
    then show ?thesis using Cons.prems by simp
  next
    case (Inr cid)
    define k where "k = key_of n (AtPeer i) cid"
    let ?a = "a\<lparr> peerUsernames := map_set (peerUsernames a) k (field p ''username'') \<rparr>"
    let ?b = "b\<lparr> peerUsernames := map_set (peerUsernames b) k (field p ''username'') \<rparr>"
    have e: "erase_logs ?a = erase_logs ?b" using Cons.prems by (rule erase_peerUsernames)
    obtain ra a1 where ca: "createPeerConnection L ?a k True = (ra, a1)"
      by (cases "createPeerConnection L ?a k True")
    obtain rb b1 where cb: "createPeerConnection L ?b k True = (rb, b1)"
      by (cases "createPeerConnection L ?b k True")
    from createPeerConnection_erase[OF e, of L k True] ca cb
    have r: "ra = rb" "erase_logs a1 = erase_logs b1" by simp_all
    show ?thesis using Inr ca cb r Cons.IH[OF r(2), of "i + 1"] by (cases rb) (auto simp: k_def)
  qed
qed simp

lemma handleOffer_erase:
  assumes "erase_logs a = erase_logs b"
  shows "fst (handleOffer L a n d) = fst (handleOffer L b n d) \<and>
         erase_logs (snd (handleOffer L a n d)) = erase_logs (snd (handleOffer L b n d))"
proof (cases "get_prop d ''senderId''")
  case (Inl e)
  then show ?thesis using assms by (simp add: handleOffer_def)
next
  case (Inr senderId)
  let ?k = "key_of n AtSenderId senderId"
  let ?ca = "case map_get (peerConnections a) ?k of
              Some h \<Rightarrow> (Inr h, a) | None \<Rightarrow> createPeerConnection L a ?k False"
  let ?cb = "case map_get (peerConnections b) ?k of
              Some h \<Rightarrow> (Inr h, b) | None \<Rightarrow> createPeerConnection L b ?k False"
  obtain ra a1 where ca: "?ca = (ra, a1)" by (cases ?ca)
  obtain rb b1 where cb: "?cb = (rb, b1)" by (cases ?cb)
  have pc: "peerConnections a = peerConnections b" using assms by (simp add: erase_iff)
  have r: "ra = rb" "erase_logs a1 = erase_logs b1"
    using ca cb assms createPeerConnection_erase[OF assms, of L ?k False] pc
    by (auto split: option.splits)
  show ?thesis
  proof (cases rb)
    case (Inl e)
    then show ?thesis using Inr ca cb r by (simp add: handleOffer_def Let_def)
  next
    case h: (Inr h)
    show ?thesis
      using Inr ca cb r(1) h r(2)[unfolded erase_iff]
      by (simp add: handleOffer_def Let_def erase_iff split: sum.split)
  qed
qed

lemma handleAnswer_erase:
  assumes "erase_logs a = erase_logs b"
  shows "fst (handleAnswer L a n d) = fst (handleAnswer L b n d) \<and>
         erase_logs (snd (handleAnswer L a n d)) = erase_logs (snd (handleAnswer L b n d))"
  using assms unfolding erase_iff
  by (simp add: handleAnswer_def log_def split: sum.split option.split)

lemma handleIceCandidate_erase:
  assumes "erase_logs a = erase_logs b"
  shows "fst (handleIceCandidate L a n d) = fst (handleIceCandidate L b n d) \<and>
         erase_logs (snd (handleIceCandidate L a n d)) = erase_logs (snd (handleIceCandidate L b n d))"
  using assms unfolding erase_iff
  by (simp add: handleIceCandidate_def log_def split: sum.split option.split)

lemma handlePeerDisconnection_erase:
  assumes "erase_logs a = erase_logs b"
  shows "fst (handlePeerDisconnection L a p u) = fst (handlePeerDisconnection L b p u) \<and>
         erase_logs (snd (handlePeerDisconnection L a p u)) = erase_logs (snd (handlePeerDisconnection L b p u))"
  using assms unfolding erase_iff
  by (simp add: handlePeerDisconnection_def log_def Let_def split: option.split sum.split prod.split)

lemma switch_erase:
  assumes "erase_logs a = erase_logs b"
  shows "fst (switch_type L a n d) = fst (switch_type L b n d) \<and>
         erase_logs (snd (switch_type L a n d)) = erase_logs (snd (switch_type L b n d))"
proof (cases "get_prop d ''type''")
  case (Inl e)
  then show ?thesis using assms by (simp add: switch_type_def)
next
  case (Inr ty)
  define k where "k = key_of n AtPeerId (field d ''peerId'')"
  let ?np_a = "a\<lparr> peerUsernames := map_set (peerUsernames a) k (field d ''username'') \<rparr>"
  let ?np_b = "b\<lparr> peerUsernames := map_set (peerUsernames b) k (field d ''username'') \<rparr>"
  consider (ep) "ty = Some (JStr ''existing-peers'')" | (np) "ty = Some (JStr ''new-peer'')"
    | (off) "ty = Some (JStr ''offer'')" | (ans) "ty = Some (JStr ''answer'')"
    | (ice) "ty = Some (JStr ''ice-candidate'')" | (pd) "ty = Some (JStr ''peer-disconnected'')"
    | (other) "ty \<noteq> Some (JStr ''existing-peers'')" "ty \<noteq> Some (JStr ''new-peer'')"
        "ty \<noteq> Some (JStr ''offer'')" "ty \<noteq> Some (JStr ''answer'')"
        "ty \<noteq> Some (JStr ''ice-candidate'')" "ty \<noteq> Some (JStr ''peer-disconnected'')"
    by blast
  then show ?thesis
  proof cases
    case ep
    then show ?thesis
      using Inr assms loop_erase[OF assms, of L n 0]
      by (simp add: switch_type_def split: sum.split)
  next
    case np
    obtain ra a1 where ca: "createPeerConnection L ?np_a k False = (ra, a1)"
      by (cases "createPeerConnection L ?np_a k False")
    obtain rb b1 where cb: "createPeerConnection L ?np_b k False = (rb, b1)"
      by (cases "createPeerConnection L ?np_b k False")
    from createPeerConnection_erase[OF erase_peerUsernames[OF assms, of k "field d ''username''"],
           of L k False] ca cb
    have r: "ra = rb" "erase_logs a1 = erase_logs b1" by simp_all
    show ?thesis
      using Inr np ca cb r by (cases rb) (simp_all add: switch_type_def k_def)
  next
    case off
    then show ?thesis
      using Inr handleOffer_erase[OF erase_peerUsernames[OF assms], of L]
      by (simp add: switch_type_def)
  next
    case ans
    then show ?thesis
      using Inr handleAnswer_erase[OF assms, of L n d] by (simp add: switch_type_def)
  next
    case ice
    then show ?thesis
      using Inr handleIceCandidate_erase[OF assms, of L n d] by (simp add: switch_type_def)
  next
    case pd
    then show ?thesis
      using Inr handlePeerDisconnection_erase[OF assms, of L] by (simp add: switch_type_def)
  next
    case other
    then show ?thesis using Inr assms by (simp add: switch_type_def)
  qed
qed

lemma ws_onmessage_erase:
  assumes "erase_logs a = erase_logs b"
  shows "fst (ws_onmessage L a f) = fst (ws_onmessage L b f) \<and>
         erase_logs (snd (ws_onmessage L a f)) = erase_logs (snd (ws_onmessage L b f))"
proof (cases f)
  case None
  then show ?thesis using assms by (simp add: ws_onmessage_def)
next
  case (Some d)
  define x where "x = ''Received message: '' @ stringify L d"
  have nb: "frames b = frames a" using assms by (simp add: erase_iff)
  let ?n = "frames a"
  let ?a0 = "log (a\<lparr> frames := ?n + 1 \<rparr>) ''debug'' x"
  let ?b0 = "log (b\<lparr> frames := ?n + 1 \<rparr>) ''debug'' x"
  have l: "erase_logs ?a0 = erase_logs ?b0"
    using assms unfolding erase_iff by (simp add: log_def)
  have m: "erase_logs (?a0\<lparr> myPeerId := v \<rparr>) = erase_logs (?b0\<lparr> myPeerId := v \<rparr>)" for v
    using assms unfolding erase_iff by (simp add: log_def)
  have id: "myPeerId ?a0 = myPeerId ?b0"
    using assms unfolding erase_iff by (simp add: log_def)
  have eq: "ws_onmessage L s f =
      (if \<not> truthy (myPeerId (log (s\<lparr> frames := frames s + 1 \<rparr>) ''debug'' x)) then
             (case get_prop d ''senderId'' of
                Inl e \<Rightarrow> (Inl e, log (s\<lparr> frames := frames s + 1 \<rparr>) ''debug'' x)
              | Inr None \<Rightarrow> switch_type L (log (s\<lparr> frames := frames s + 1 \<rparr>) ''debug'' x) (frames s) d
              | Inr (Some senderId) \<Rightarrow>
                  switch_type L (if truthy senderId
                                 then (log (s\<lparr> frames := frames s + 1 \<rparr>) ''debug'' x)\<lparr> myPeerId := senderId \<rparr>
                                 else log (s\<lparr> frames := frames s + 1 \<rparr>) ''debug'' x) (frames s) d)
           else switch_type L (log (s\<lparr> frames := frames s + 1 \<rparr>) ''debug'' x) (frames s) d)" for s :: "'a chat"
    unfolding Some ws_onmessage_def Let_def option.case x_def ..
  note ea = eq[of a]
  note eb = eq[of b, unfolded nb]
  show ?thesis
  proof (cases "get_prop d ''senderId''")
    case (Inl e)
    then show ?thesis
      using l id switch_erase[OF l, of L ?n d] by (simp add: ea eb)
  next
    case (Inr sid)
    show ?thesis
    proof (cases sid)
      case None
      then show ?thesis using Inr id switch_erase[OF l, of L ?n d] by (simp add: ea eb)
    next
      case (Some v)
      then show ?thesis
        using Inr id switch_erase[OF l, of L ?n d] switch_erase[OF m[of v], of L ?n d] by (simp add: ea eb)
    qed
  qed
qed

lemma receive_erase:
  "erase_logs a = erase_logs b \<Longrightarrow> erase_logs (receive L a fs) = erase_logs (receive L b fs)"
proof (induction fs arbitrary: a b)
  case (Cons f fs)
  have "erase_logs (snd (ws_onmessage L a f)) = erase_logs (snd (ws_onmessage L b f))"
    using ws_onmessage_erase[OF Cons.prems, of L f] by simp
  then have "erase_logs (receive L (snd (ws_onmessage L a f)) fs)
               = erase_logs (receive L (snd (ws_onmessage L b f)) fs)"
    by (rule Cons.IH)
  then show ?case by simp
qed simp

subsection \<open>Remote candidates\<close>

text \<open>
  Claim C5, as the spec states it, fails: the client has made the connection to peer 1 and
  sent its offer; a candidate of peer 1 arrives before the answer, the library rejects it,
  and when the answer has been applied the connection holds the remote description and no
  candidate: the one that came early was not kept and is not replayed.
\<close>

theorem early_candidate_lost:
  "map_get (peerConnections (receive simple_rtc (init_chat simple_rtc (JStr ''bob'')) early_candidate))
       (Prim (Some (JNum 1))) = Some 0 \<and>
   remoteDesc (lib (conns (receive simple_rtc (init_chat simple_rtc (JStr ''bob'')) early_candidate) 0))
     = Some (JObj [(''type'', JStr ''answer''), (''sdp'', JStr ''v=0'')]) \<and>
   cands (lib (conns (receive simple_rtc (init_chat simple_rtc (JStr ''bob'')) early_candidate) 0)) = []"
  by (simp add: client_defs early_candidate_def Let_def)

text \<open>
  Claim C5, amended. On an \<^verbatim>\<open>ice-candidate\<close> envelope of a peer that has a
  connection, \<^verbatim>\<open>ws.onmessage\<close> counts and logs the frame, takes
  \<^verbatim>\<open>myPeerId\<close> from its \<^verbatim>\<open>senderId\<close> when it had none, calls
  \<^verbatim>\<open>addIceCandidate\<close> at once, and does not reject. When the library takes the
  candidate, that connection changes and nothing else. When the library rejects it, the
  message is logged at level \<^verbatim>\<open>error\<close> and nothing else is done: the candidate
  is kept nowhere, and whatever frames come later, the answer among them, the client ends,
  the log apart, in the state it reaches from the one in which the frame was only counted
  and \<^verbatim>\<open>myPeerId\<close> taken. Nothing is replayed.
\<close>

theorem ice_candidate_applied_at_once:
  assumes "map_of kvs ''type'' = Some (JStr ''ice-candidate'')"
      and "map_get (peerConnections st) (key_of (frames st) AtSenderId (map_of kvs ''senderId'')) = Some h"
  shows "fst (ws_onmessage L st (Some (JObj kvs))) = Inr () \<and>
         (case addIceCandidate L (lib (conns st h)) (map_of kvs ''candidate'') of
            Inl msg \<Rightarrow>
              snd (ws_onmessage L st (Some (JObj kvs))) =
                st\<lparr> frames := frames st + 1,
                    logs := logs st @ [(''debug'', ''Received message: '' @ stringify L (JObj kvs)),
                                       (''error'', ''Error adding received ice candidate: '' @ msg)],
                    myPeerId := learn (myPeerId st) (map_of kvs ''senderId'') \<rparr> \<and>
              erase_logs (receive L (snd (ws_onmessage L st (Some (JObj kvs)))) fs) =
                erase_logs (receive L (st\<lparr> frames := frames st + 1,
                                           myPeerId := learn (myPeerId st) (map_of kvs ''senderId'') \<rparr>) fs)
          | Inr p \<Rightarrow>
              snd (ws_onmessage L st (Some (JObj kvs))) =
                st\<lparr> frames := frames st + 1,
                    logs := logs st @ [(''debug'', ''Received message: '' @ stringify L (JObj kvs))],
                    myPeerId := learn (myPeerId st) (map_of kvs ''senderId''),
                    conns := (conns st)(h := (conns st h)\<lparr> lib := p \<rparr>) \<rparr>)"
proof -
  let ?st1 = "st\<lparr> frames := frames st + 1,
                    logs := logs st @ [(''debug'', ''Received message: '' @ stringify L (JObj kvs))],
                    myPeerId := learn (myPeerId st) (map_of kvs ''senderId'') \<rparr>"
  have eq: "ws_onmessage L st (Some (JObj kvs)) = handleIceCandidate L ?st1 (frames st) (JObj kvs)"
    using assms(1) by (simp add: ws_onmessage_obj switch_type_def)
  show ?thesis
  proof (cases "addIceCandidate L (lib (conns st h)) (map_of kvs ''candidate'')")
    case (Inl msg)
    let ?st2 = "st\<lparr> frames := frames st + 1,
                    logs := logs st @ [(''debug'', ''Received message: '' @ stringify L (JObj kvs)),
                                       (''error'', ''Error adding received ice candidate: '' @ msg)],
                    myPeerId := learn (myPeerId st) (map_of kvs ''senderId'') \<rparr>"
    have r: "ws_onmessage L st (Some (JObj kvs)) = (Inr (), ?st2)"
      using assms(2) Inl by (simp add: eq handleIceCandidate_def log_def)
    have "erase_logs ?st2 =
            erase_logs (st\<lparr> frames := frames st + 1, myPeerId := learn (myPeerId st) (map_of kvs ''senderId'') \<rparr>)"
      by (simp add: erase_iff)
    then have "erase_logs (receive L ?st2 fs) =
            erase_logs (receive L (st\<lparr> frames := frames st + 1,
                                       myPeerId := learn (myPeerId st) (map_of kvs ''senderId'') \<rparr>) fs)"
      by (rule receive_erase)
    then show ?thesis using r Inl by simp
  next
    case (Inr p)
    then show ?thesis using assms(2) by (simp add: eq handleIceCandidate_def)
  qed
qed

theorem ice_candidate_applied_at_once_witness:
  "map_of [(''type'', JStr ''ice-candidate''), (''candidate'', JStr ''c1''), (''senderId'', JNum 1)] ''type''
     = Some (JStr ''ice-candidate'') \<and>
   map_get (peerConnections awaiting_answer)
      (key_of (frames awaiting_answer) AtSenderId
         (map_of [(''type'', JStr ''ice-candidate''), (''candidate'', JStr ''c1''), (''senderId'', JNum 1)] ''senderId''))
     = Some 0 \<and>
   ws_onmessage simple_rtc awaiting_answer
      (Some (JObj [(''type'', JStr ''ice-candidate''), (''candidate'', JStr ''c1''), (''senderId'', JNum 1)])) =
     (Inr (), awaiting_answer\<lparr> frames := 2,
         logs := logs awaiting_answer @
           [(''debug'', ''Received message: json''),
            (''error'', ''Error adding received ice candidate: The remote description was null'')],
         myPeerId := JNum 1 \<rparr>) \<and>
   erase_logs (receive simple_rtc
      (snd (ws_onmessage simple_rtc awaiting_answer
         (Some (JObj [(''type'', JStr ''ice-candidate''), (''candidate'', JStr ''c1''), (''senderId'', JNum 1)]))))
      (drop 2 early_candidate))
     = erase_logs (receive simple_rtc (awaiting_answer\<lparr> frames := 2, myPeerId := JNum 1 \<rparr>)
                     (drop 2 early_candidate))"
  using ice_candidate_applied_at_once[of
          "[(''type'', JStr ''ice-candidate''), (''candidate'', JStr ''c1''), (''senderId'', JNum 1)]"
          awaiting_answer 0 simple_rtc "drop 2 early_candidate"]
  by (clarsimp simp: awaiting_answer_fields simple_rtc_sel learn_def prod_eq_iff numeral_2_eq_2)

section \<open>Properties of the relay and a client together\<close>

subsection \<open>Where a frame the relay has sent comes from\<close>

lemma remote_id_mono: "remote_id n a v \<Longrightarrow> n \<le> n' \<Longrightarrow> remote_id n' a v"
  by (auto simp: remote_id_def)

lemma safe_mono: "safe n a f \<Longrightarrow> n \<le> n' \<Longrightarrow> safe n' a f"
  by (auto simp: safe_def split: option.splits json.splits intro: remote_id_mono)

lemma nsocks_on_message: "on_message w cid un m = Inr w' \<Longrightarrow> nsocks w' = nsocks w"
  by (auto dest!: on_message_frame)

lemma nsocks_once_message: "nsocks (once_message w s cid m) = nsocks w"
  using once_message_cases[of w s cid m]
  by (auto simp: once_message_register ws_close_def Let_def split: sum.splits)

lemma nsocks_on_close: "on_close w cid = Inr w' \<Longrightarrow> nsocks w' = nsocks w"
  by (auto dest!: on_close_frame)

lemma nsocks_step: "nsocks w \<le> nsocks (step w ev)"
  by (auto simp: step_def on_connection_def nsocks_once_message nsocks_on_close nsocks_on_message Let_def
      split: event.splits listener.splits option.splits sum.splits)

lemma sent_on_message:
  assumes "on_message w cid un m = Inr w'" "(s, g) \<in> set (sent w')" "(s, g) \<notin> set (sent w)"
  shows "\<exists>kvs T c. m = Some (JObj kvs) \<and> map_of kvs ''targetPeerId'' = Some T \<and>
           clients_get (clients w) T = Some c \<and> ws c = s \<and>
           g = JObj (put_opt (put kvs ''senderId'' (JNum (int cid))) ''username'' un)"
proof -
  obtain d where m: "m = Some d" using assms(1) by (cases m) (auto simp: on_message_def)
  show ?thesis
  proof (cases d)
    case (JObj kvs)
    have t: "map_of (put_opt (put kvs ''senderId'' (JNum (int cid))) ''username'' un) ''targetPeerId''
               = map_of kvs ''targetPeerId''"
      by (simp add: map_of_put_opt map_of_put_other)
    show ?thesis
      using assms m JObj t
      by (auto simp: on_message_def ws_send_def split: option.splits if_splits)
  qed (use assms m in \<open>auto simp: on_message_def\<close>)
qed

lemma sent_once_message:
  assumes "(s, g) \<in> set (sent (once_message w s' cid m))" "(s, g) \<notin> set (sent w)"
  shows "(s = s' \<and> g = existing_peers (map peer_entry (filter (\<lambda>e. fst e \<noteq> cid) (clients w)))) \<or>
         (\<exists>e un. e \<in> set (clients w) \<and> fst e \<noteq> cid \<and> s = ws (snd e) \<and> g = new_peer cid un)"
proof -
  have "once_message w s' cid m \<noteq> ws_close w s'"
    using assms by (auto simp: ws_close_def)
  then obtain kvs where kvs: "m = Some (JObj kvs)" "map_of kvs ''type'' = Some (JStr ''register'')"
    using once_message_cases[of w s' cid m] by auto
  let ?EP = "existing_peers (map peer_entry (filter (\<lambda>e. fst e \<noteq> cid) (clients w)))"
  let ?NP = "map (\<lambda>e. (ws (snd e), new_peer cid (map_of kvs ''username''))) (others_open w cid)"
  have "(s, g) \<in> set ((if filter (\<lambda>e. fst e \<noteq> cid) (clients w) = [] then [] else [(s', ?EP)]) @ ?NP)"
    using assms unfolding kvs(1) once_message_register[OF kvs(2)] Let_def
    by (auto split: sum.splits if_splits)
  then consider (ep) "s = s'" "g = ?EP" | (np) "(s, g) \<in> set ?NP"
    by (auto split: if_splits)
  then show ?thesis
  proof cases
    case ep
    then show ?thesis by simp
  next
    case np
    then obtain e where "e \<in> set (others_open w cid)" "s = ws (snd e)"
        "g = new_peer cid (map_of kvs ''username'')"
      by auto
    then have "e \<in> set (clients w) \<and> fst e \<noteq> cid \<and> s = ws (snd e) \<and> g = new_peer cid (map_of kvs ''username'')"
      by (simp add: others_open_def)
    then show ?thesis by blast
  qed
qed

lemma sent_on_close:
  assumes "on_close w cid = Inr w'" "(s, g) \<in> set (sent w')" "(s, g) \<notin> set (sent w)"
  shows "\<exists>un. g = peer_disconnected cid un"
  using assms
  by (auto simp: on_close_def notify_disconnected_eq Let_def split: option.splits sum.splits)

lemma field_stamped:
  "field (JObj (put_opt (put kvs ''senderId'' (JNum (int cid))) ''username'' un)) ''senderId''
     = Some (JNum (int cid))"
  by (simp add: map_of_put_opt map_of_put_same)

lemma safe_stamped:
  assumes "1 \<le> cid" "cid \<le> n" "cid \<noteq> a"
  shows "safe n a (JObj (put_opt (put kvs ''senderId'' (JNum (int cid))) ''username'' un))"
  using assms by (auto simp: safe_def remote_id_def map_of_put_opt map_of_put_same)

lemma safe_new_peer: "cid \<noteq> a \<Longrightarrow> safe n a (new_peer cid un)"
  by (cases un) (auto simp: safe_def quiet_def new_peer_def)

lemma safe_peer_disconnected: "safe n a (peer_disconnected cid un)"
  by (cases un) (auto simp: safe_def quiet_def peer_disconnected_def)

lemma safe_existing_peers:
  "safe n a (existing_peers (map peer_entry (filter (\<lambda>e. fst e \<noteq> a) m)))"
  by (auto simp: safe_def quiet_def existing_peers_def peer_entry_def)

lemma clients_get_socket:
  assumes "wf w" "clients_get (clients w) T = Some c"
  shows "T = JNum (int (ws c + 1))"
proof (cases T)
  case (JNum n)
  with assms(2) have n: "0 \<le> n" "map_of (clients w) (nat n) = Some c"
    by (auto simp: map_get_map_of split: if_splits)
  then have "(nat n, c) \<in> set (clients w)" by (auto dest: map_of_SomeD)
  with assms(1) have "nat n = ws c + 1" by (auto simp: wf_def)
  with n(1) JNum show ?thesis by auto
qed (use assms(2) in simp_all)

lemma step_sent_safe:
  assumes wf: "wf w"
      and own: "\<And>m. ev = Message me m \<Longrightarrow> \<exists>f. m = Some f \<and> field f ''targetPeerId'' \<noteq> Some (JNum (int (me + 1)))"
      and new: "(me, g) \<in> set (sent (step w ev))" "(me, g) \<notin> set (sent w)"
  shows "safe (nsocks w) (me + 1) g"
proof (cases ev)
  case Connection
  with new show ?thesis by (auto simp: step_def on_connection_def Let_def split: if_splits)
next
  case (Close s)
  let ?w1 = "w\<lparr> readyState := (readyState w)(s := CLOSED) \<rparr>"
  from new Close obtain cid w' where "on_close ?w1 cid = Inr w'" "(me, g) \<in> set (sent w')"
    by (auto simp: step_def Let_def split: if_splits option.splits sum.splits)
  with new(2) obtain un where "g = peer_disconnected cid un"
    using sent_on_close[of ?w1 cid w' me g] by auto
  then show ?thesis by (simp add: safe_peer_disconnected)
next
  case (Message s m)
  from new Message have live: "uncaught w = None" "readyState w s \<noteq> CLOSED"
    by (auto simp: step_def split: if_splits)
  show ?thesis
  proof (cases "listeners w s")
    case NoListener
    with new Message show ?thesis by (auto simp: step_def split: if_splits)
  next
    case Once
    with new Message live obtain cid where cid: "conn w s = Some cid"
      and in_reg: "(me, g) \<in> set (sent (once_message (w\<lparr> listeners := (listeners w)(s := NoListener) \<rparr>) s cid m))"
      by (auto simp: step_def split: option.splits)
    from wf_conn[OF wf cid] have c: "cid = s + 1" "s < nsocks w" by auto
    from sent_once_message[OF in_reg] new(2)
    consider (ep) "me = s" "g = existing_peers (map peer_entry (filter (\<lambda>e. fst e \<noteq> cid) (clients w)))"
      | (np) e un where "e \<in> set (clients w)" "fst e \<noteq> cid" "me = ws (snd e)" "g = new_peer cid un"
      by auto
    then show ?thesis
    proof cases
      case ep
      then show ?thesis using c by (simp add: safe_existing_peers)
    next
      case np
      with wf have "fst e = me + 1" by (auto simp: wf_def)
      with np show ?thesis by (simp add: safe_new_peer)
    qed
  next
    case (On un)
    with new Message live obtain cid w' where cid: "conn w s = Some cid"
      and om: "on_message w cid un m = Inr w'" and in_w': "(me, g) \<in> set (sent w')"
      by (auto simp: step_def split: option.splits sum.splits)
    from wf_conn[OF wf cid] have c: "cid = s + 1" "s < nsocks w" by auto
    from sent_on_message[OF om in_w' new(2)] obtain kvs T cl where
      k: "m = Some (JObj kvs)" "map_of kvs ''targetPeerId'' = Some T"
         "clients_get (clients w) T = Some cl" "ws cl = me"
         "g = JObj (put_opt (put kvs ''senderId'' (JNum (int cid))) ''username'' un)"
      by auto
    have T: "T = JNum (int (me + 1))" using clients_get_socket[OF wf k(3)] k(4) by simp
    have "s \<noteq> me"
    proof
      assume "s = me"
      with own[of m] Message k(1) k(2) T show False by auto
    qed
    then show ?thesis
      unfolding k(5) using c by (intro safe_stamped) auto
  qed
qed

lemma step_inbox_safe:
  assumes "wf w"
      and "\<And>m. ev = Message me m \<Longrightarrow> \<exists>f. m = Some f \<and> field f ''targetPeerId'' \<noteq> Some (JNum (int (me + 1)))"
      and "\<forall>g \<in> set (inbox w me). safe (nsocks w) (me + 1) g"
  shows "\<forall>g \<in> set (inbox (step w ev) me). safe (nsocks (step w ev)) (me + 1) g"
proof
  fix g assume "g \<in> set (inbox (step w ev) me)"
  then have g: "(me, g) \<in> set (sent (step w ev))" by (auto simp: inbox_def)
  have "safe (nsocks w) (me + 1) g"
  proof (cases "(me, g) \<in> set (sent w)")
    case True
    then have "g \<in> set (inbox w me)" by (force simp: inbox_def)
    with assms(3) show ?thesis by simp
  next
    case False
    with step_sent_safe[OF assms(1) assms(2) g] show ?thesis by simp
  qed
  then show "safe (nsocks (step w ev)) (me + 1) g"
    by (rule safe_mono) (rule nsocks_step)
qed

subsection \<open>What the handlers of the client keep\<close>

lemma map_of_opt_field_same: "map_of (opt_field k v) k = v"
  by (cases v) auto

lemma createPeerConnection_keeps:
  "myPeerId (snd (createPeerConnection L st p i)) = myPeerId st \<and>
   chat_out (snd (createPeerConnection L st p i)) = chat_out st"
  by (simp add: createPeerConnection_def setupDataChannel_def Let_def split: sum.splits)

lemma tame_createPeerConnection:
  "tame a st \<Longrightarrow> value_of p \<noteq> Some (JNum (int a)) \<Longrightarrow> tame a (snd (createPeerConnection L st p i))"
  by (auto simp: tame_def createPeerConnection_def setupDataChannel_def Let_def map_of_opt_field_same
      split: sum.splits)

lemma loop_keeps:
  "myPeerId (snd (existing_peers_loop L st n i ps)) = myPeerId st \<and>
   chat_out (snd (existing_peers_loop L st n i ps)) = chat_out st"
proof (induction ps arbitrary: st i)
  case (Cons p ps)
  show ?case
  proof (cases "get_prop p ''clientId''")
    case (Inr cid)
    let ?k = "key_of n (AtPeer i) cid"
    let ?st0 = "st\<lparr> peerUsernames := map_set (peerUsernames st) ?k (field p ''username'') \<rparr>"
    obtain r st1 where c: "createPeerConnection L ?st0 ?k True = (r, st1)"
      by (cases "createPeerConnection L ?st0 ?k True")
    have "myPeerId st1 = myPeerId st \<and> chat_out st1 = chat_out st"
      using createPeerConnection_keeps[of L ?st0 ?k True] c by simp
    then show ?thesis using Inr c Cons.IH[of st1 "i + 1"] by (cases r) auto
  qed simp
qed simp

lemma tame_loop:
  assumes "tame a st" "\<forall>p \<in> set ps. field p ''clientId'' \<noteq> Some (JNum (int a))"
  shows "tame a (snd (existing_peers_loop L st n i ps))"
  using assms
proof (induction ps arbitrary: st i)
  case (Cons p ps)
  show ?case
  proof (cases "get_prop p ''clientId''")
    case (Inl e)
    then show ?thesis using Cons.prems by simp
  next
    case (Inr cid)
    then have cid: "cid \<noteq> Some (JNum (int a))"
      using Cons.prems(2) by (auto simp: get_prop_field split: if_splits)
    let ?k = "key_of n (AtPeer i) cid"
    let ?st0 = "st\<lparr> peerUsernames := map_set (peerUsernames st) ?k (field p ''username'') \<rparr>"
    obtain r st1 where c: "createPeerConnection L ?st0 ?k True = (r, st1)"
      by (cases "createPeerConnection L ?st0 ?k True")
    have "tame a ?st0" using Cons.prems(1) by (simp add: tame_def)
    then have "tame a st1"
      using tame_createPeerConnection[of a ?st0 ?k L True] cid c by (simp add: value_of_key_of)
    then show ?thesis using Inr c Cons.IH[of st1 "i + 1"] Cons.prems(2) by (cases r) auto
  qed
qed simp

lemma handleOffer_keeps:
  "myPeerId (snd (handleOffer L st n d)) = myPeerId st \<and>
   chat_out (snd (handleOffer L st n d)) = chat_out st"
proof (cases "get_prop d ''senderId''")
  case (Inr senderId)
  let ?k = "key_of n AtSenderId senderId"
  let ?c = "case map_get (peerConnections st) ?k of
              Some h \<Rightarrow> (Inr h, st) | None \<Rightarrow> createPeerConnection L st ?k False"
  have k: "myPeerId (snd ?c) = myPeerId st \<and> chat_out (snd ?c) = chat_out st"
    using createPeerConnection_keeps[of L st ?k False] by (auto split: option.splits)
  obtain r st1 where c: "?c = (r, st1)" by (cases ?c)
  with k have "myPeerId st1 = myPeerId st \<and> chat_out st1 = chat_out st" by simp
  then show ?thesis
    using Inr c by (cases r) (auto simp: handleOffer_def Let_def split: sum.splits)
qed (simp add: handleOffer_def)

lemma tame_handleOffer:
  assumes "tame a st" "field d ''senderId'' \<noteq> Some (JNum (int a))"
  shows "tame a (snd (handleOffer L st n d))"
proof (cases "get_prop d ''senderId''")
  case (Inr senderId)
  then have p: "senderId \<noteq> Some (JNum (int a))"
    using assms(2) by (auto simp: get_prop_field split: if_splits)
  let ?k = "key_of n AtSenderId senderId"
  have v: "value_of ?k \<noteq> Some (JNum (int a))" using p by (simp add: value_of_key_of)
  let ?c = "case map_get (peerConnections st) ?k of
              Some h \<Rightarrow> (Inr h, st) | None \<Rightarrow> createPeerConnection L st ?k False"
  have k: "tame a (snd ?c)"
    using tame_createPeerConnection[OF assms(1) v, of L False] assms(1) by (auto split: option.splits)
  obtain r st1 where c: "?c = (r, st1)" by (cases ?c)
  with k have "tame a st1" by simp
  then show ?thesis
    using Inr c p
    by (cases r)
       (auto simp: handleOffer_def Let_def tame_def map_of_opt_field_same value_of_key_of split: sum.splits)
qed (use assms in \<open>simp add: handleOffer_def\<close>)

lemma handleAnswer_keeps:
  "myPeerId (snd (handleAnswer L st n d)) = myPeerId st \<and>
   chat_out (snd (handleAnswer L st n d)) = chat_out st \<and>
   (tame a st \<longrightarrow> tame a (snd (handleAnswer L st n d)))"
  by (auto simp: handleAnswer_def log_def tame_def split: sum.splits option.splits)

lemma handleIceCandidate_keeps:
  "myPeerId (snd (handleIceCandidate L st n d)) = myPeerId st \<and>
   chat_out (snd (handleIceCandidate L st n d)) = chat_out st \<and>
   (tame a st \<longrightarrow> tame a (snd (handleIceCandidate L st n d)))"
  by (auto simp: handleIceCandidate_def log_def tame_def split: sum.splits option.splits)

lemma handlePeerDisconnection_keeps:
  "myPeerId (snd (handlePeerDisconnection L st p u)) = myPeerId st \<and>
   chat_out (snd (handlePeerDisconnection L st p u)) = chat_out st \<and>
   (tame a st \<longrightarrow> tame a (snd (handlePeerDisconnection L st p u)))"
  by (auto simp: handlePeerDisconnection_def log_def tame_def Let_def
      split: option.splits sum.splits prod.splits)

lemma sender_ok_mono: "sender_ok n a p \<Longrightarrow> n \<le> n' \<Longrightarrow> sender_ok n' a p"
  by (auto simp: sender_ok_def intro: remote_id_mono)

lemma remote_id_truthy: "remote_id n a v \<Longrightarrow> truthy v \<and> v \<noteq> JNull"
  by (auto simp: remote_id_def)

lemma switch_keeps:
  "myPeerId (snd (switch_type L st n d)) = myPeerId st \<and>
   chat_out (snd (switch_type L st n d)) = chat_out st"
  using loop_keeps[of L st n 0] handleAnswer_keeps[of L st n d] handleIceCandidate_keeps[of L st n d]
    handlePeerDisconnection_keeps[of L st]
    createPeerConnection_keeps[of L
      "st\<lparr> peerUsernames := map_set (peerUsernames st) (key_of n AtPeerId (field d ''peerId'')) (field d ''username'') \<rparr>"
      "key_of n AtPeerId (field d ''peerId'')" False]
    handleOffer_keeps[of L
      "st\<lparr> peerUsernames := map_set (peerUsernames st) (key_of n AtSenderId (field d ''senderId'')) (field d ''username'') \<rparr>"
      n d]
  by (simp add: switch_type_def case_prod_beta split: sum.split)

lemma tame_switch:
  assumes "tame a st" "quiet a kvs" "map_of kvs ''senderId'' = None"
  shows "tame a (snd (switch_type L st n (JObj kvs)))"
proof -
  let ?np = "st\<lparr> peerUsernames := map_set (peerUsernames st) (key_of n AtPeerId (map_of kvs ''peerId''))
                                      (map_of kvs ''username'') \<rparr>"
  let ?of = "st\<lparr> peerUsernames := map_set (peerUsernames st) (key_of n AtSenderId (map_of kvs ''senderId''))
                                      (map_of kvs ''username'') \<rparr>"
  have t1: "tame a ?np" "tame a ?of" using assms(1) by (simp_all add: tame_def)
  have ep: "map_of kvs ''type'' = Some (JStr ''existing-peers'') \<Longrightarrow> iterate (map_of kvs ''peers'') = Inr ps \<Longrightarrow>
            tame a (snd (existing_peers_loop L st n 0 ps))" for ps
    using assms(1,2) by (intro tame_loop) (auto simp: quiet_def)
  have np: "map_of kvs ''type'' = Some (JStr ''new-peer'') \<Longrightarrow>
            tame a (snd (createPeerConnection L ?np (key_of n AtPeerId (map_of kvs ''peerId'')) False))"
    using assms(2) t1(1) by (intro tame_createPeerConnection) (auto simp: quiet_def value_of_key_of)
  have off: "tame a (snd (handleOffer L ?of n (JObj kvs)))"
    using t1(2) assms(3) by (intro tame_handleOffer) auto
  show ?thesis
    using assms(1) ep np off handleAnswer_keeps[of L st n "JObj kvs" a]
      handleIceCandidate_keeps[of L st n "JObj kvs" a]
      handlePeerDisconnection_keeps[of L st "key_of n AtPeerId (map_of kvs ''peerId'')" "map_of kvs ''username''" a]
    by (simp add: switch_type_def case_prod_beta split: sum.split)
qed

lemma ws_onmessage_known:
  assumes "truthy (myPeerId st)"
  shows "myPeerId (snd (ws_onmessage L st f)) = myPeerId st \<and>
         chat_out (snd (ws_onmessage L st f)) = chat_out st"
  using assms
    switch_keeps[of L "log (st\<lparr> frames := frames st + 1 \<rparr>) ''debug'' (''Received message: '' @ stringify L (the f))"
      "frames st" "the f"]
  by (cases f) (simp_all add: ws_onmessage_def Let_def log_def)

subsection \<open>The invariant\<close>

lemma sys_inv_relay:
  assumes inv: "sys_inv me S"
      and own: "\<And>m. ev = Message me m \<Longrightarrow>
                  \<exists>f. m = Some f \<and> (myPeerId (client_of S) = JNull \<longrightarrow> f \<in> set (wire (client_of S)))"
  shows "sys_inv me (S\<lparr> relay_of := step (relay_of S) ev \<rparr>)"
proof -
  let ?w = "relay_of S" and ?c = "client_of S"
  have wf: "wf ?w" using inv by (simp add: sys_inv_def)
  have n: "nsocks ?w \<le> nsocks (step ?w ev)" by (rule nsocks_step)
  have id: "myPeerId ?c = JNull \<or> remote_id (nsocks (step ?w ev)) (me + 1) (myPeerId ?c)"
    using inv n by (auto simp: sys_inv_def intro: remote_id_mono)
  have out: "\<forall>e \<in> set (chat_out ?c). sender_ok (nsocks (step ?w ev)) (me + 1) (snd e)"
    using inv n by (auto simp: sys_inv_def intro: sender_ok_mono)
  have box: "\<forall>g \<in> set (inbox (step ?w ev) me). safe (nsocks (step ?w ev)) (me + 1) g"
    if null: "myPeerId ?c = JNull"
  proof (rule step_inbox_safe[OF wf])
    show "\<forall>g \<in> set (inbox ?w me). safe (nsocks ?w) (me + 1) g"
      using inv null by (simp add: sys_inv_def)
  next
    fix m assume "ev = Message me m"
    from own[OF this] null obtain f where f: "m = Some f" "f \<in> set (wire ?c)" by auto
    moreover have "tame (me + 1) ?c" using inv null by (simp add: sys_inv_def)
    ultimately show "\<exists>f. m = Some f \<and> field f ''targetPeerId'' \<noteq> Some (JNum (int (me + 1)))"
      by (auto simp: tame_def)
  qed
  show ?thesis
    using wf_step[OF wf, of ev] id out box inv by (simp add: sys_inv_def)
qed

lemma sys_inv_client:
  assumes inv: "sys_inv me S"
      and id: "myPeerId c' = myPeerId (client_of S)"
      and out: "chat_out c' = chat_out (client_of S)"
      and tm: "tame (me + 1) (client_of S) \<Longrightarrow> tame (me + 1) c'"
  shows "sys_inv me (S\<lparr> client_of := c' \<rparr>)"
  using assms by (simp add: sys_inv_def)

lemma sys_inv_downlink:
  assumes inv: "sys_inv me S" and g: "g \<in> set (inbox (relay_of S) me)"
  shows "sys_inv me (S\<lparr> client_of := snd (ws_onmessage L (client_of S) (Some g)), delivered := d \<rparr>)"
proof (cases "myPeerId (client_of S) = JNull")
  case False
  with inv have "truthy (myPeerId (client_of S))"
    by (auto simp: sys_inv_def dest: remote_id_truthy)
  from ws_onmessage_known[OF this, of L "Some g"] inv False show ?thesis
    by (simp add: sys_inv_def)
next
  case True
  let ?w = "relay_of S" and ?c = "client_of S"
  from inv True g have safe: "safe (nsocks ?w) (me + 1) g" and tame: "tame (me + 1) ?c"
    by (auto simp: sys_inv_def)
  then obtain kvs where kvs: "g = JObj kvs" by (auto simp: safe_def split: json.splits)
  let ?c1 = "?c\<lparr> frames := frames ?c + 1,
                  logs := logs ?c @ [(''debug'', ''Received message: '' @ stringify L (JObj kvs))],
                  myPeerId := learn (myPeerId ?c) (map_of kvs ''senderId'') \<rparr>"
  have eq: "ws_onmessage L ?c (Some g) = switch_type L ?c1 (frames ?c) (JObj kvs)"
    unfolding kvs by (rule ws_onmessage_obj)
  have keeps: "myPeerId (snd (ws_onmessage L ?c (Some g))) = learn JNull (map_of kvs ''senderId'')"
      "chat_out (snd (ws_onmessage L ?c (Some g))) = chat_out ?c"
    using switch_keeps[of L ?c1 "frames ?c" "JObj kvs"] True by (simp_all add: eq)
  show ?thesis
  proof (cases "map_of kvs ''senderId''")
    case None
    then have q: "quiet (me + 1) kvs" using safe kvs by (simp add: safe_def)
    have "tame (me + 1) ?c1" using tame by (simp add: tame_def)
    from tame_switch[OF this q None, of L "frames ?c"] have "tame (me + 1) (snd (ws_onmessage L ?c (Some g)))"
      by (simp add: eq)
    then show ?thesis
      using inv keeps None True by (simp add: sys_inv_def learn_def)
  next
    case (Some v)
    then have r: "remote_id (nsocks ?w) (me + 1) v" using safe kvs by (simp add: safe_def)
    then have "learn JNull (map_of kvs ''senderId'') = v" "v \<noteq> JNull"
      using Some by (auto simp: learn_def dest: remote_id_truthy)
    then show ?thesis
      using inv keeps r by (simp add: sys_inv_def)
  qed
qed

lemma fan_out_eq:
  "fan_out st payload m =
     st\<lparr> chat_out := chat_out st @ map (\<lambda>e. (snd e, payload))
                                      (filter (\<lambda>e. channelState st (snd e) = ChOpen) m) \<rparr>"
  by (induction m arbitrary: st) auto

lemma appendMessage_keeps:
  "chat_out (snd (appendMessage st m u)) = chat_out st \<and> myPeerId (snd (appendMessage st m u)) = myPeerId st \<and>
   wire (snd (appendMessage st m u)) = wire st \<and> conns (snd (appendMessage st m u)) = conns st"
  by (simp add: appendMessage_def split: sum.split prod.split)

lemma sendMessage_out:
  "chat_out (snd (sendMessage st message)) =
     chat_out st @
     (if message = [] then []
      else map (\<lambda>e. (snd e, JObj [(''message'', JStr message), (''senderId'', myPeerId st),
                                   (''username'', cfg_username st)]))
               (filter (\<lambda>e. channelState st (snd e) = ChOpen) (dataChannels st)))"
  by (simp add: sendMessage_def fan_out_eq Let_def appendMessage_keeps)

lemma sendMessage_keeps:
  "myPeerId (snd (sendMessage st message)) = myPeerId st \<and> wire (snd (sendMessage st message)) = wire st \<and>
   conns (snd (sendMessage st message)) = conns st"
  by (simp add: sendMessage_def fan_out_eq Let_def appendMessage_keeps)

lemma sys_inv_send:
  assumes inv: "sys_inv me S"
  shows "sys_inv me (S\<lparr> client_of := snd (sendMessage (client_of S) message) \<rparr>)"
proof -
  have "sender_ok (nsocks (relay_of S)) (me + 1)
          (JObj [(''message'', JStr message), (''senderId'', myPeerId (client_of S)),
                 (''username'', cfg_username (client_of S))])"
    using inv by (auto simp: sys_inv_def sender_ok_def)
  then show ?thesis
    using inv sendMessage_keeps[of "client_of S" message]
    by (auto simp: sys_inv_def sendMessage_out tame_def)
qed

lemma channel_handlers_keep:
  "myPeerId (snd (channel_onopen st k)) = myPeerId st \<and> chat_out (snd (channel_onopen st k)) = chat_out st \<and>
   wire (snd (channel_onopen st k)) = wire st \<and> conns (snd (channel_onopen st k)) = conns st"
  "myPeerId (snd (channel_onclose st k)) = myPeerId st \<and> chat_out (snd (channel_onclose st k)) = chat_out st \<and>
   wire (snd (channel_onclose st k)) = wire st \<and> conns (snd (channel_onclose st k)) = conns st"
  "myPeerId (snd (channel_onmessage st f)) = myPeerId st \<and> chat_out (snd (channel_onmessage st f)) = chat_out st \<and>
   wire (snd (channel_onmessage st f)) = wire st \<and> conns (snd (channel_onmessage st f)) = conns st"
  by (simp_all add: channel_onopen_def channel_onclose_def channel_onmessage_def log_def Let_def
        appendMessage_keeps split: sum.split prod.split option.split)

lemma sys_inv_step: "sys_inv me S \<Longrightarrow> sys_inv me (sys_step me L S ev)"
proof (cases ev)
  case (Net e)
  assume inv: "sys_inv me S"
  show ?thesis
  proof (cases "\<exists>m. e = Message me m")
    case True
    then show ?thesis using Net inv by (auto simp: sys_step_def)
  next
    case False
    then have "sys_inv me (S\<lparr> relay_of := step (relay_of S) e \<rparr>)"
      using inv by (intro sys_inv_relay) auto
    then show ?thesis using Net False by (auto simp: sys_step_def Let_def split: event.splits)
  qed
next
  case WsOpen
  assume inv: "sys_inv me S"
  show ?thesis
    unfolding WsOpen sys_step_def Let_def sys_event.case
    using inv by (intro sys_inv_client) (auto simp: ws_onopen_def tame_def register_frame_def)
next
  case Uplink
  assume inv: "sys_inv me S"
  show ?thesis
  proof (cases "forwarded S < length (wire (client_of S))")
    case True
    have "sys_inv me (S\<lparr> relay_of := step (relay_of S) (Message me (Some (wire (client_of S) ! forwarded S))) \<rparr>)"
      using inv True by (intro sys_inv_relay) auto
    then show ?thesis using Uplink True by (simp add: sys_step_def Let_def sys_inv_def)
  next
    case False
    then show ?thesis using Uplink inv by (simp add: sys_step_def Let_def)
  qed
next
  case Downlink
  assume inv: "sys_inv me S"
  show ?thesis
  proof (cases "delivered S < length (inbox (relay_of S) me)")
    case True
    then have "inbox (relay_of S) me ! delivered S \<in> set (inbox (relay_of S) me)" by simp
    from sys_inv_downlink[OF inv this, where L = L and d = "delivered S + 1"] show ?thesis
      using Downlink True by (simp add: sys_step_def Let_def)
  next
    case False
    then show ?thesis using Downlink inv by (simp add: sys_step_def Let_def)
  qed
next
  case (IceEvent h candidate)
  assume inv: "sys_inv me S"
  have "sys_inv me (S\<lparr> client_of := onicecandidate (client_of S) (peerOf (conns (client_of S) h)) candidate \<rparr>)"
    using inv by (intro sys_inv_client) (auto simp: onicecandidate_def tame_def map_of_opt_field_same)
  then show ?thesis using IceEvent inv by (simp add: sys_step_def Let_def)
next
  case (DataChannelEvent h)
  assume inv: "sys_inv me S"
  let ?c = "client_of S"
  have "sys_inv me (S\<lparr> client_of := setupDataChannel
                      (?c\<lparr> channelState := (channelState ?c)(nextChannel ?c := ChConnecting),
                          nextChannel := nextChannel ?c + 1 \<rparr>)
                      (nextChannel ?c) (peerOf (conns ?c h)) \<rparr>)"
    using inv by (intro sys_inv_client) (auto simp: setupDataChannel_def tame_def)
  then show ?thesis using DataChannelEvent inv by (simp add: sys_step_def Let_def)
next
  case (ChannelState ch x)
  assume inv: "sys_inv me S"
  let ?c = "client_of S"
  let ?c1 = "?c\<lparr> channelState := (channelState ?c)(ch := x) \<rparr>"
  have "sys_inv me (S\<lparr> client_of := (if x = ChOpen then snd (channel_onopen ?c1 (channelPeer ?c1 ch))
                       else if x = ChClosed then snd (channel_onclose ?c1 (channelPeer ?c1 ch))
                       else ?c1) \<rparr>)"
    using inv channel_handlers_keep(1,2)[of ?c1 "channelPeer ?c1 ch"]
    by (intro sys_inv_client) (auto simp: tame_def)
  then show ?thesis using ChannelState inv by (simp add: sys_step_def Let_def)
next
  case (ChannelMessage ch payload)
  assume inv: "sys_inv me S"
  have "sys_inv me (S\<lparr> client_of := snd (channel_onmessage (client_of S) payload) \<rparr>)"
    using inv channel_handlers_keep(3)[of "client_of S" payload]
    by (intro sys_inv_client) (auto simp: tame_def)
  then show ?thesis using ChannelMessage inv by (simp add: sys_step_def Let_def)
next
  case (Send message)
  assume inv: "sys_inv me S"
  show ?thesis using Send sys_inv_send[OF inv] by (simp add: sys_step_def Let_def)
qed

lemma sys_inv_run: "sys_inv me S \<Longrightarrow> sys_inv me (sys_run me L S evs)"
  by (induction evs arbitrary: S) (auto simp: sys_inv_step)

lemma sys_inv_init: "sys_inv me (sys_init L u)"
  using wf_init by (simp add: sys_inv_def sys_init_def init_chat_def init_def tame_def inbox_def)

subsection \<open>Objects as peer ids\<close>

lemma older_key_of: "older (Suc n) (key_of n p v)"
  by (induction n p v rule: key_of.induct) auto

lemma older_Suc: "older n k \<Longrightarrow> older (Suc n) k"
  by (cases k) auto

lemma in_map_set: "e \<in> set (map_set m k v) \<Longrightarrow> e \<in> set m \<or> e = (k, v)"
  using set_map_set[of m k v] by auto

lemma createPeerConnection_frames: "frames (snd (createPeerConnection L st k i)) = frames st"
  by (simp add: createPeerConnection_def setupDataChannel_def Let_def split: sum.splits)

lemma fresh_createPeerConnection:
  assumes "fresh st" "older (frames st) k"
  shows "fresh (snd (createPeerConnection L st k i))"
  using assms
  by (auto simp: fresh_def createPeerConnection_def setupDataChannel_def Let_def
      split: sum.splits dest!: in_map_set)

lemma fresh_peerUsernames:
  "fresh st \<Longrightarrow> older (frames st) k \<Longrightarrow> fresh (st\<lparr> peerUsernames := map_set (peerUsernames st) k v \<rparr>)"
  by (auto simp: fresh_def dest!: in_map_set)

lemma fresh_loop:
  assumes "fresh st" "frames st = Suc n"
  shows "fresh (snd (existing_peers_loop L st n i ps)) \<and> frames (snd (existing_peers_loop L st n i ps)) = Suc n"
  using assms
proof (induction ps arbitrary: st i)
  case (Cons p ps)
  show ?case
  proof (cases "get_prop p ''clientId''")
    case (Inl e)
    then show ?thesis using Cons.prems by simp
  next
    case (Inr cid)
    let ?k = "key_of n (AtPeer i) cid"
    let ?st0 = "st\<lparr> peerUsernames := map_set (peerUsernames st) ?k (field p ''username'') \<rparr>"
    have k: "older (frames st) ?k" using Cons.prems(2) by (simp add: older_key_of)
    obtain r st1 where c: "createPeerConnection L ?st0 ?k True = (r, st1)"
      by (cases "createPeerConnection L ?st0 ?k True")
    have "fresh ?st0" using Cons.prems(1) k by (rule fresh_peerUsernames)
    then have "fresh st1" "frames st1 = Suc n"
      using fresh_createPeerConnection[of ?st0 ?k L True] createPeerConnection_frames[of L ?st0 ?k True]
        k c Cons.prems(2) by simp_all
    then show ?thesis using Inr c Cons.IH[of st1 "i + 1"] by (cases r) auto
  qed
qed simp

lemma fresh_handleOffer:
  assumes "fresh st" "frames st = Suc n"
  shows "fresh (snd (handleOffer L st n d))"
proof (cases "get_prop d ''senderId''")
  case (Inr senderId)
  let ?k = "key_of n AtSenderId senderId"
  have k: "older (frames st) ?k" using assms(2) by (simp add: older_key_of)
  let ?c = "case map_get (peerConnections st) ?k of
              Some h \<Rightarrow> (Inr h, st) | None \<Rightarrow> createPeerConnection L st ?k False"
  have f: "fresh (snd ?c)"
    using fresh_createPeerConnection[OF assms(1) k, of L False] assms(1) by (auto split: option.splits)
  obtain r st1 where c: "?c = (r, st1)" by (cases ?c)
  with f have "fresh st1" by simp
  then show ?thesis
    using Inr c
    by (cases r) (auto simp: handleOffer_def Let_def fresh_def split: sum.splits)
qed (use assms in \<open>simp add: handleOffer_def\<close>)

lemma fresh_handlers:
  "fresh st \<Longrightarrow>
   fresh (snd (handleAnswer L st n d)) \<and> fresh (snd (handleIceCandidate L st n d)) \<and>
   fresh (snd (handlePeerDisconnection L st k u))"
  by (auto simp: handleAnswer_def handleIceCandidate_def handlePeerDisconnection_def log_def fresh_def
        Let_def map_delete_filter split: sum.splits option.splits prod.splits)

lemma fresh_switch:
  assumes "fresh st" "frames st = Suc n"
  shows "fresh (snd (switch_type L st n d))"
proof -
  let ?kp = "key_of n AtPeerId (field d ''peerId'')"
  let ?ks = "key_of n AtSenderId (field d ''senderId'')"
  let ?np = "st\<lparr> peerUsernames := map_set (peerUsernames st) ?kp (field d ''username'') \<rparr>"
  let ?of = "st\<lparr> peerUsernames := map_set (peerUsernames st) ?ks (field d ''username'') \<rparr>"
  have o: "older (frames st) ?kp" "older (frames st) ?ks" using assms(2) by (simp_all add: older_key_of)
  have f: "fresh ?np" "fresh ?of" using assms(1) o by (auto intro: fresh_peerUsernames)
  have np: "fresh (snd (createPeerConnection L ?np ?kp False))"
    using f(1) o(1) by (intro fresh_createPeerConnection) simp_all
  have off: "fresh (snd (handleOffer L ?of n d))"
    using f(2) assms(2) by (intro fresh_handleOffer) simp_all
  show ?thesis
    using assms(1) fresh_loop[OF assms, of L 0] np off
      fresh_handlers[OF assms(1), of L n d ?kp "field d ''username''"]
    by (simp add: switch_type_def case_prod_beta split: sum.split)
qed

lemma fresh_ws_onmessage:
  assumes "fresh st"
  shows "fresh (snd (ws_onmessage L st f))"
proof (cases f)
  case None
  then show ?thesis using assms by (simp add: ws_onmessage_def)
next
  case (Some d)
  let ?st0 = "log (st\<lparr> frames := frames st + 1 \<rparr>) ''debug'' (''Received message: '' @ stringify L d)"
  have f0: "fresh ?st0" using assms by (auto simp: fresh_def log_def intro: older_Suc)
  have f1: "fresh (?st0\<lparr> myPeerId := v \<rparr>)" for v using f0 by (simp add: fresh_def)
  have n: "frames ?st0 = Suc (frames st)" "frames (?st0\<lparr> myPeerId := v \<rparr>) = Suc (frames st)" for v
    by (simp_all add: log_def)
  show ?thesis
    using f0 fresh_switch[OF f0 n(1), of L d] fresh_switch[OF f1 n(2), where L = L and d = d]
    unfolding Some ws_onmessage_def Let_def option.case
    by (auto split: sum.splits option.splits)
qed

lemma fresh_sys_step:
  assumes "fresh (client_of S)"
  shows "fresh (client_of (sys_step me L S ev))"
proof (cases ev)
  case (Net e)
  then show ?thesis using assms by (auto simp: sys_step_def Let_def split: event.splits)
next
  case WsOpen
  then show ?thesis using assms by (simp add: sys_step_def Let_def ws_onopen_def fresh_def)
next
  case Uplink
  then show ?thesis using assms by (simp add: sys_step_def Let_def)
next
  case Downlink
  then show ?thesis using assms fresh_ws_onmessage[OF assms, of L] by (simp add: sys_step_def Let_def)
next
  case (IceEvent h candidate)
  then show ?thesis using assms by (simp add: sys_step_def Let_def onicecandidate_def fresh_def)
next
  case (DataChannelEvent h)
  then show ?thesis
    using assms by (auto simp: sys_step_def Let_def setupDataChannel_def fresh_def dest!: in_map_set)
next
  case (ChannelState ch x)
  then show ?thesis
    using assms
    by (auto simp: sys_step_def Let_def channel_onopen_def channel_onclose_def log_def fresh_def
          map_delete_filter split: sum.splits prod.splits)
next
  case (ChannelMessage ch payload)
  then show ?thesis
    using assms
    by (auto simp: sys_step_def Let_def channel_onmessage_def appendMessage_def fresh_def
        split: sum.splits prod.splits option.splits)
next
  case (Send message)
  then show ?thesis
    using assms
    by (auto simp: sys_step_def Let_def sendMessage_def appendMessage_def fan_out_eq fresh_def
        split: sum.splits prod.splits)
qed

lemma fresh_reachable: "fresh (client_of (sys_run me L (sys_init L u) evs))"
proof -
  have "fresh (client_of (sys_run me L S evs))" if "fresh (client_of S)" for S
    using that by (induction evs arbitrary: S) (auto simp: fresh_sys_step)
  moreover have "fresh (client_of (sys_init L u))"
    by (simp add: sys_init_def init_chat_def fresh_def)
  ultimately show ?thesis by blast
qed

text \<open>
  So, in every state the client reaches, an envelope \<^verbatim>\<open>peer-disconnected\<close>
  whose \<^verbatim>\<open>peerId\<close> is an object or an array removes no record and closes no
  connection: the ids that name a peer from one frame to the next are the primitive values,
  as the numbers the relay writes.
\<close>

lemma object_id_removes_nothing:
  assumes "map_of kvs ''type'' = Some (JStr ''peer-disconnected'')"
      and "map_of kvs ''peerId'' = Some v" "v = JObj x \<or> v = JArr y"
  shows "peerConnections (snd (ws_onmessage L (client_of (sys_run me L (sys_init L u) evs)) (Some (JObj kvs))))
           = peerConnections (client_of (sys_run me L (sys_init L u) evs)) \<and>
         dataChannels (snd (ws_onmessage L (client_of (sys_run me L (sys_init L u) evs)) (Some (JObj kvs))))
           = dataChannels (client_of (sys_run me L (sys_init L u) evs)) \<and>
         peerUsernames (snd (ws_onmessage L (client_of (sys_run me L (sys_init L u) evs)) (Some (JObj kvs))))
           = peerUsernames (client_of (sys_run me L (sys_init L u) evs)) \<and>
         conns (snd (ws_onmessage L (client_of (sys_run me L (sys_init L u) evs)) (Some (JObj kvs))))
           = conns (client_of (sys_run me L (sys_init L u) evs))"
proof -
  let ?st = "client_of (sys_run me L (sys_init L u) evs)"
  let ?P = "Ref (frames ?st) AtPeerId v"
  let ?st1 = "?st\<lparr> frames := frames ?st + 1,
                    logs := logs ?st @ [(''debug'', ''Received message: '' @ stringify L (JObj kvs))],
                    myPeerId := learn (myPeerId ?st) (map_of kvs ''senderId'') \<rparr>"
  have f: "fresh ?st" by (rule fresh_reachable)
  have P: "key_of (frames ?st) AtPeerId (map_of kvs ''peerId'') = ?P"
    using assms(2,3) by auto
  have not: "\<not> older (frames ?st) ?P" by simp
  have none: "filter (\<lambda>e. fst e \<noteq> ?P) m = m" if "\<forall>e \<in> set m. older (frames ?st) (fst e)"
    for m :: "(key \<times> 'b) list"
    using that not by (auto simp: filter_id_conv)
  have g: "map_get (peerConnections ?st) ?P = None"
    using f not by (force simp: fresh_def map_get_map_of map_of_eq_None_iff)
  have "ws_onmessage L ?st (Some (JObj kvs)) = handlePeerDisconnection L ?st1 ?P (map_of kvs ''username'')"
    using assms(1) P by (simp add: ws_onmessage_obj switch_type_def)
  then show ?thesis
    using handlePeerDisconnection_maps[of L ?st1 ?P "map_of kvs ''username''"] f g
    by (simp add: none fresh_def)
qed

subsection \<open>The id in a chat message\<close>

lemma demo_run:
  "chat_out (client_of (sys_run 1 simple_rtc (sys_init simple_rtc (JStr ''alice'')) demo))
     = [(0, JObj [(''message'', JStr ''hi''), (''senderId'', JNum 1), (''username'', JStr ''alice'')])]"
  "conn (relay_of (sys_run 1 simple_rtc (sys_init simple_rtc (JStr ''alice'')) demo)) 1 = Some 2"
  "issued (relay_of (sys_run 1 simple_rtc (sys_init simple_rtc (JStr ''alice'')) demo)) = [1, 2]"
  by (simp_all add: demo_def sys_step_def sys_init_def inbox_def relay_defs client_defs ws_onopen_def
       notify_new_peer_eq fan_out_eq channel_onopen_def peerUsername_def issued_def List.map_filter_def Let_def)

text \<open>
  Claim C9. On a frame that is an object the client sets \<^verbatim>\<open>myPeerId\<close> to the
  frame's \<^verbatim>\<open>senderId\<close> when \<^verbatim>\<open>myPeerId\<close> is still falsy and the
  \<^verbatim>\<open>senderId\<close> is truthy, and leaves it otherwise; a chat message carries
  \<^verbatim>\<open>myPeerId\<close> as its \<^verbatim>\<open>senderId\<close>. With the relay, which stamps
  a forwarded envelope with the id of its sender and writes no \<^verbatim>\<open>senderId\<close> into
  its own envelopes, and whatever the other peers send and in whatever order the events come:
  every chat message the client has sent on a data channel carries as
  \<^verbatim>\<open>senderId\<close> either \<^verbatim>\<open>null\<close> or an id the relay issued that is not
  the id of the client's own socket.
\<close>

theorem chat_sender_is_remote_peer:
  "myPeerId (snd (ws_onmessage L st (Some (JObj kvs)))) = learn (myPeerId st) (map_of kvs ''senderId'') \<and>
   chat_out (snd (sendMessage st message)) =
     chat_out st @
     (if message = [] then []
      else map (\<lambda>e. (snd e, JObj [(''message'', JStr message), (''senderId'', myPeerId st),
                                   (''username'', cfg_username st)]))
               (filter (\<lambda>e. channelState st (snd e) = ChOpen) (dataChannels st))) \<and>
   (\<forall>e \<in> set (chat_out (client_of (sys_run me L (sys_init L u) evs))).
      field (snd e) ''senderId'' = Some JNull \<or>
      (\<exists>k. field (snd e) ''senderId'' = Some (JNum (int k)) \<and>
           k \<in> set (issued (relay_of (sys_run me L (sys_init L u) evs))) \<and>
           conn (relay_of (sys_run me L (sys_init L u) evs)) me \<noteq> Some k))"
proof -
  let ?S = "sys_run me L (sys_init L u) evs"
  have inv: "sys_inv me ?S" by (simp add: sys_inv_run sys_inv_init)
  then have wf: "wf (relay_of ?S)" by (simp add: sys_inv_def)
  have a: "myPeerId (snd (ws_onmessage L st (Some (JObj kvs)))) = learn (myPeerId st) (map_of kvs ''senderId'')"
    using switch_keeps[of L _ "frames st" "JObj kvs"] by (simp add: ws_onmessage_obj)
  have b: "field (snd e) ''senderId'' = Some JNull \<or>
      (\<exists>k. field (snd e) ''senderId'' = Some (JNum (int k)) \<and> k \<in> set (issued (relay_of ?S)) \<and>
           conn (relay_of ?S) me \<noteq> Some k)" if "e \<in> set (chat_out (client_of ?S))" for e
  proof -
    from inv that have "sender_ok (nsocks (relay_of ?S)) (me + 1) (snd e)" by (simp add: sys_inv_def)
    then consider "field (snd e) ''senderId'' = Some JNull"
      | k where "field (snd e) ''senderId'' = Some (JNum (int k))" "1 \<le> k" "k \<le> nsocks (relay_of ?S)" "k \<noteq> me + 1"
      by (auto simp: sender_ok_def remote_id_def)
    then show ?thesis
    proof cases
      case 2
      then have "k \<in> set (issued (relay_of ?S))"
        by (auto simp: issued_wf[OF wf] image_iff intro!: bexI[of _ "k - 1"])
      moreover have "conn (relay_of ?S) me \<noteq> Some k"
        using wf 2(4) by (auto simp: wf_def)
      ultimately show ?thesis using 2(1) by blast
    qed simp
  qed
  show ?thesis using a b sendMessage_out[of st message] by blast
qed

theorem chat_sender_is_remote_peer_witness:
  "(0, JObj [(''message'', JStr ''hi''), (''senderId'', JNum 1), (''username'', JStr ''alice'')])
     \<in> set (chat_out (client_of (sys_run 1 simple_rtc (sys_init simple_rtc (JStr ''alice'')) demo))) \<and>
   field (JObj [(''message'', JStr ''hi''), (''senderId'', JNum 1), (''username'', JStr ''alice'')]) ''senderId''
     = Some (JNum (int 1)) \<and>
   1 \<in> set (issued (relay_of (sys_run 1 simple_rtc (sys_init simple_rtc (JStr ''alice'')) demo))) \<and>
   conn (relay_of (sys_run 1 simple_rtc (sys_init simple_rtc (JStr ''alice'')) demo)) 1 \<noteq> Some 1"
  using chat_sender_is_remote_peer[of simple_rtc "init_chat simple_rtc (JStr ''alice'')" "[]" "''hi''" 1
          "JStr ''alice''" demo]
    demo_run
  by simp

end
